theory Spec2Isabelle
  imports Main "HOL-Library.Word" "HOL-Library.Multiset"
begin

section \<open>Data model of the placement engine\<close>

text \<open>
  The code under verification is \<^verbatim>\<open>services/controllerhost/placement.go\<close>: the
  \<^verbatim>\<open>DistancePlacement\<close> strategy with its three public operations and the round-robin
  culler behind them.

  A \<^verbatim>\<open>common.HostInfo\<close> is a record of the four string fields the code reads. The code
  handles hosts through pointers (\<^verbatim>\<open>*common.HostInfo\<close>), which may be nil: a pointer is
  an \<open>option\<close>, and a slice of pointers a list of options. A nil slice and an empty slice
  are both the empty list (the code only ever takes their length).
\<close>

record HostInfo =
  UUID :: string
  Addr :: string
  Name :: string
  Sku :: string

text \<open>
  The four package-level errors of the file, and the errors that collaborators (registry,
  topology service, configuration store, metrics store) hand back.
\<close>

datatype error =
    errNoHosts
  | errNoInputHosts
  | errNoOutputHosts
  | errNoStoreHosts
  | CollaboratorError string

text \<open>
  A call either returns, panics (a failed slice expression, a nil dereference, a negative
  capacity, or the logger's \<^verbatim>\<open>Panic\<close>), or ends the process (the logger's \<^verbatim>\<open>Fatal\<close>).
  The \<^verbatim>\<open>Info\<close> and \<^verbatim>\<open>Error\<close> log lines carry no control flow and are not modelled.
\<close>

datatype 'a outcome = Returns 'a | Panics string | Exits

text \<open>
  Calls to the registry and to the topology service are recorded, in order, as events.
\<close>

datatype event =
    CallGetHosts string
  | CallFindResources "string list" "string list" string int "16 word" "16 word"
  | CallFindHostForAddr string string

section \<open>The fairness culler\<close>

text \<open>
  \<^verbatim>\<open>var rrMap = map[string]int{}\<close>: a Go map read with the zero default. Go's \<^verbatim>\<open>int\<close> is
  taken as 64 bits wide; \<^verbatim>\<open>rrMap[k]++\<close> wraps around at the top of that range.
\<close>

type_synonym rrMap = "string \<rightharpoonup> int"

definition rr_get :: "rrMap \<Rightarrow> string \<Rightarrow> int" where
  "rr_get rr k = (case rr k of None \<Rightarrow> 0 | Some v \<Rightarrow> v)"

definition MaxInt32 :: int where
  "MaxInt32 = 2147483647"

definition MaxInt64 :: int where
  "MaxInt64 = 9223372036854775807"

definition int64_incr :: "int \<Rightarrow> int" where
  "int64_incr v = (if v = MaxInt64 then - MaxInt64 - 1 else v + 1)"

definition rr_incr :: "rrMap \<Rightarrow> string \<Rightarrow> rrMap" where
  "rr_incr rr k = rr(k \<mapsto> int64_incr (rr_get rr k))"

text \<open>
  The loop \<^verbatim>\<open>findCurrentMinimum\<close>: the running minimum starts at \<^verbatim>\<open>math.MaxInt32\<close> (passed
  in as \<open>mn\<close>), nil entries are skipped, and the scan stops as soon as the minimum is 0.
\<close>

fun findCurrentMinimum :: "rrMap \<Rightarrow> HostInfo option list \<Rightarrow> int \<Rightarrow> int" where
  "findCurrentMinimum rr [] mn = mn"
| "findCurrentMinimum rr (None # rest) mn = findCurrentMinimum rr rest mn"
| "findCurrentMinimum rr (Some hi # rest) mn =
     (let mn' = (if mn > rr_get rr (UUID hi) then rr_get rr (UUID hi) else mn)
      in if mn' = 0 then mn' else findCurrentMinimum rr rest mn')"

text \<open>
  The loop \<^verbatim>\<open>addMinimums\<close>: every non-nil entry whose counter equals the minimum is
  appended to \<open>out\<close> and its slot in the input slice is set to nil; the scan stops when
  \<open>out\<close> has \<open>count\<close> elements. The result is the new \<open>out\<close> and the input slice after
  the scan.
\<close>

fun addMinimums ::
  "rrMap \<Rightarrow> int \<Rightarrow> int \<Rightarrow> HostInfo option list \<Rightarrow> HostInfo list
    \<Rightarrow> HostInfo list \<times> HostInfo option list" where
  "addMinimums rr mn cnt [] out = (out, [])"
| "addMinimums rr mn cnt (None # rest) out =
     apsnd ((#) None) (addMinimums rr mn cnt rest out)"
| "addMinimums rr mn cnt (Some hi # rest) out =
     (if rr_get rr (UUID hi) = mn then
        (if int (length (out @ [hi])) = cnt then (out @ [hi], None # rest)
         else apsnd ((#) None) (addMinimums rr mn cnt rest (out @ [hi])))
      else apsnd ((#) (Some hi)) (addMinimums rr mn cnt rest out))"

text \<open>
  The candidates still in the slice: its non-nil entries, in order. Each round of the
  outer loop takes at least one of them.
\<close>

definition live :: "HostInfo option list \<Rightarrow> HostInfo list" where
  "live inp = map the (filter (\<lambda>e. e \<noteq> None) inp)"

text \<open>
  What one scan can still take of the candidates \<open>xs\<close> at the minimum: as many as are
  missing from \<open>out\<close>; all of them when \<open>out\<close> is already beyond \<open>count\<close>, as the scan
  only stops on reaching \<open>count\<close> exactly.
\<close>

definition room :: "int \<Rightarrow> HostInfo list \<Rightarrow> HostInfo list \<Rightarrow> HostInfo list" where
  "room cnt out xs = (if int (length out) < cnt then take (nat (cnt - int (length out))) xs else xs)"

lemma live_simps [simp]:
  "live [] = []"
  "live (None # rest) = live rest"
  "live (Some hi # rest) = hi # live rest"
  by (simp_all add: live_def)

lemma findCurrentMinimum_le: "findCurrentMinimum rr inp mn \<le> mn"
proof (induction rr inp mn rule: findCurrentMinimum.induct)
  case (3 rr hi rest mn)
  then show ?case
    by (simp add: Let_def) (smt (verit))
qed simp_all

lemma findCurrentMinimum_hit:
  "findCurrentMinimum rr inp mn \<noteq> mn
    \<Longrightarrow> \<exists>hi \<in> set (live inp). rr_get rr (UUID hi) = findCurrentMinimum rr inp mn"
proof (induction rr inp mn rule: findCurrentMinimum.induct)
  case (3 rr hi rest mn)
  then show ?case
    by (simp add: Let_def split: if_splits) metis+
qed simp_all

lemma addMinimums_live_le:
  "length (live (snd (addMinimums rr mn cnt inp out))) \<le> length (live inp)"
  by (induction rr mn cnt inp out rule: addMinimums.induct) auto

lemma addMinimums_live_less:
  "\<exists>hi \<in> set (live inp). rr_get rr (UUID hi) = mn
    \<Longrightarrow> length (live (snd (addMinimums rr mn cnt inp out))) < length (live inp)"
proof (induction rr mn cnt inp out rule: addMinimums.induct)
  case (3 rr mn cnt hi rest out)
  then show ?case
    using addMinimums_live_le [of rr mn cnt rest "out @ [hi]"]
    by (auto simp: less_Suc_eq_le Suc_le_eq)
qed auto

text \<open>
  The outer loop \<^verbatim>\<open>findNextMinimum\<close>: one scan for the minimum, one scan that takes the
  entries at the minimum, until \<open>out\<close> is full or the scan for the minimum found nothing
  below \<^verbatim>\<open>math.MaxInt32\<close>.
\<close>

function findNextMinimum ::
  "rrMap \<Rightarrow> int \<Rightarrow> HostInfo option list \<Rightarrow> HostInfo list
    \<Rightarrow> HostInfo list \<times> HostInfo option list" where
  "findNextMinimum rr cnt inp out =
     (let mn = findCurrentMinimum rr inp MaxInt32;
          r = addMinimums rr mn cnt inp out
      in if int (length (fst r)) = cnt \<or> mn = MaxInt32 then r
         else findNextMinimum rr cnt (snd r) (fst r))"
  by pat_completeness auto
termination
proof (relation "measure (\<lambda>(rr, cnt, inp, out). length (live inp))")
  show "wf (measure (\<lambda>(rr, cnt, inp, out). length (live inp)))"
    by simp
next
  fix rr :: rrMap and cnt :: int and inp :: "HostInfo option list" and out :: "HostInfo list"
    and mn r
  assume mn: "mn = findCurrentMinimum rr inp MaxInt32"
    and r: "r = addMinimums rr mn cnt inp out"
    and go: "\<not> (int (length (fst r)) = cnt \<or> mn = MaxInt32)"
  from go mn have "findCurrentMinimum rr inp MaxInt32 \<noteq> MaxInt32"
    by simp
  then have "\<exists>hi \<in> set (live inp). rr_get rr (UUID hi) = mn"
    unfolding mn by (rule findCurrentMinimum_hit)
  then have "length (live (snd r)) < length (live inp)"
    unfolding r by (rule addMinimums_live_less)
  then show "((rr, cnt, snd r, fst r), (rr, cnt, inp, out))
      \<in> measure (\<lambda>(rr, cnt, inp, out). length (live inp))"
    by simp
qed

declare findNextMinimum.simps [simp del]

text \<open>
  \<^verbatim>\<open>roundRobinCull(in, count, note)\<close>. \<^verbatim>\<open>make([]*common.HostInfo, 0, count)\<close> panics on a
  negative capacity, before the lock is taken. The result carries what the caller can
  observe afterwards: the returned slice, the caller's input slice as the call left it,
  and the counter table. \<open>note\<close> only labels the log lines.
\<close>

definition roundRobinCull ::
  "rrMap \<Rightarrow> HostInfo option list \<Rightarrow> int \<Rightarrow> string
    \<Rightarrow> (HostInfo list \<times> HostInfo option list \<times> rrMap) outcome" where
  "roundRobinCull rr inp cnt note =
     (if cnt < 0 then Panics ''makeslice: cap out of range''
      else
        (let r = findNextMinimum rr cnt inp []
         in if int (length (fst r)) \<noteq> cnt then Returns ([], snd r, rr)
            else Returns (fst r, snd r, foldl (\<lambda>m hi. rr_incr m (UUID hi)) rr (fst r))))"


section \<open>Strings\<close>

text \<open>
  \<^verbatim>\<open>strings.Split(s, ":")\<close>: the pieces of \<open>s\<close> between the separators, at least one piece.
\<close>

fun split_on :: "char \<Rightarrow> string \<Rightarrow> string list" where
  "split_on c [] = [[]]"
| "split_on c (x # xs) =
     (if x = c then [] # split_on c xs
      else (case split_on c xs of [] \<Rightarrow> [[x]] | y # ys \<Rightarrow> (x # y) # ys))"

definition Split :: "string \<Rightarrow> string list" where
  "Split s = split_on CHR '':'' s"

text \<open>
  \<^verbatim>\<open>strconv.Atoi\<close>: an optional sign, then one or more decimal digits, and the value must
  fit the 64-bit \<^verbatim>\<open>int\<close>; anything else is an error (\<open>None\<close>).
\<close>

definition digit_of :: "char \<Rightarrow> int option" where
  "digit_of c =
     (let n = (of_char c :: int) in if 48 \<le> n \<and> n \<le> 57 then Some (n - 48) else None)"

fun digits_val :: "string \<Rightarrow> int \<Rightarrow> int option" where
  "digits_val [] acc = Some acc"
| "digits_val (c # cs) acc =
     (case digit_of c of None \<Rightarrow> None | Some d \<Rightarrow> digits_val cs (10 * acc + d))"

definition Atoi :: "string \<Rightarrow> int option" where
  "Atoi s =
     (let neg = (s \<noteq> [] \<and> hd s = CHR ''-'');
          ds = (if s \<noteq> [] \<and> (hd s = CHR ''-'' \<or> hd s = CHR ''+'') then tl s else s)
      in if ds = [] then None
         else (case digits_val ds 0 of
                 None \<Rightarrow> None
               | Some n \<Rightarrow>
                   (let v = (if neg then - n else n)
                    in if - MaxInt64 - 1 \<le> v \<and> v \<le> MaxInt64 then Some v else None)))"

text \<open>The verb \<^verbatim>\<open>%d\<close> of \<^verbatim>\<open>fmt.Sprintf\<close>: the decimal digits, with a minus sign below 0.\<close>

fun show_nat :: "nat \<Rightarrow> string" where
  "show_nat n =
     (if n < 10 then [char_of (48 + n)]
      else show_nat (n div 10) @ [char_of (48 + n mod 10)])"

declare show_nat.simps [simp del]

definition Itoa :: "int \<Rightarrow> string" where
  "Itoa i = (if i < 0 then CHR ''-'' # show_nat (nat (- i)) else show_nat (nat i))"

section \<open>Collaborators\<close>

text \<open>
  The controller configuration: the twelve distance getters, each a \<^verbatim>\<open>uint16\<close>.
\<close>

record ControllerConfig =
  MinInputToStoreDistance :: "16 word"
  MaxInputToStoreDistance :: "16 word"
  MinInputToStoreFallbackDistance :: "16 word"
  MaxInputToStoreFallbackDistance :: "16 word"
  MinOutputToStoreDistance :: "16 word"
  MaxOutputToStoreDistance :: "16 word"
  MinOutputToStoreFallbackDistance :: "16 word"
  MaxOutputToStoreFallbackDistance :: "16 word"
  MinStoreToStoreDistance :: "16 word"
  MaxStoreToStoreDistance :: "16 word"
  MinStoreToStoreFallbackDistance :: "16 word"
  MaxStoreToStoreFallbackDistance :: "16 word"

text \<open>
  What the configuration store hands back is an \<^verbatim>\<open>interface{}\<close> that the code asserts to
  be a \<^verbatim>\<open>StorePlacementConfig\<close>; the two fields of it that the code reads.
\<close>

record StorePlacementConfig =
  AdminStatus :: string
  MinFreeDiskSpaceBytes :: int

datatype cfgObj = IsStorePlacementConfig StorePlacementConfig | OtherConfig

text \<open>
  The \<^verbatim>\<open>Context\<close>: the registry \<^verbatim>\<open>rpm\<close>, the configuration store \<^verbatim>\<open>cfgMgr\<close> and the metrics
  store \<^verbatim>\<open>loadMetrics\<close> answer with a value or an error. Each is a function of its
  arguments: one placement call sees one snapshot of them, and the registry hands out a
  slice of its own on every call. The metrics lookup is always made with the same tag,
  metric name and aggregation, so it is a function of the host's UUID.
\<close>

record Context =
  appConfig :: ControllerConfig
  rpm_GetHosts :: "string \<Rightarrow> error + HostInfo option list"
  rpm_FindHostForAddr :: "string \<Rightarrow> string \<Rightarrow> error + HostInfo option"
  cfgMgr_Get :: "string \<Rightarrow> string \<Rightarrow> string \<Rightarrow> string \<Rightarrow> error + cfgObj"
  loadMetrics_Get :: "string \<Rightarrow> error + int"

text \<open>
  \<^verbatim>\<open>distance.Map\<close>, the topology service, through its one method that the code calls:
  \<^verbatim>\<open>FindResources(pool, sources, resourceType, count, minDistance, maxDistance)\<close>.
\<close>

type_synonym distance_Map =
  "string list \<Rightarrow> string list \<Rightarrow> string \<Rightarrow> int \<Rightarrow> 16 word \<Rightarrow> 16 word \<Rightarrow> error + string list"

text \<open>
  A \<^verbatim>\<open>DistancePlacement\<close> holds the context and the distance map, which is nil when no
  topology is configured. The service names of package \<^verbatim>\<open>common\<close> and the sentinel
  \<^verbatim>\<open>distance.InfiniteDistance\<close> are constants declared outside this file; they are carried
  along as parameters.
\<close>

record DistancePlacement =
  ctx :: Context
  distMap :: "distance_Map option"
  InputServiceName :: string
  OutputServiceName :: string
  StoreServiceName :: string
  InfiniteDistance :: "16 word"

text \<open>
  Modelled from the spec: the sentinel \<^verbatim>\<open>distance.ZeroDistance\<close> is declared outside this
  file; the spec reads it as distance 0, "same physical resource", which is promoted to 1.
\<close>

definition ZeroDistance :: "16 word" where
  "ZeroDistance = 0"

text \<open>
  Sequencing of calls: the events of the first call, then those of the second; a panic or
  an exit ends the sequence.
\<close>

definition andThen ::
  "event list \<times> 'a outcome \<Rightarrow> ('a \<Rightarrow> event list \<times> 'b outcome) \<Rightarrow> event list \<times> 'b outcome" where
  "andThen m f =
     (case m of
        (tr, Returns a) \<Rightarrow> (tr @ fst (f a), snd (f a))
      | (tr, Panics msg) \<Rightarrow> (tr, Panics msg)
      | (tr, Exits) \<Rightarrow> (tr, Exits))"

section \<open>The distance-constrained selector\<close>

text \<open>\<^verbatim>\<open>toResources\<close>: the host part of each address; reading a nil host panics.\<close>

fun toResources :: "HostInfo option list \<Rightarrow> string list outcome" where
  "toResources [] = Returns []"
| "toResources (None # hosts) = Panics ''nil pointer dereference''"
| "toResources (Some host # hosts) =
     (case toResources hosts of
        Returns resources \<Rightarrow> Returns (Split (Addr host) ! 0 # resources)
      | Panics msg \<Rightarrow> Panics msg
      | Exits \<Rightarrow> Exits)"

text \<open>The loop that fills \<^verbatim>\<open>hostPortMap\<close>, with its two panics.\<close>

fun fillHostPortMap :: "HostInfo option list \<Rightarrow> (string \<rightharpoonup> int) \<Rightarrow> (string \<rightharpoonup> int) outcome" where
  "fillHostPortMap [] hostPortMap = Returns hostPortMap"
| "fillHostPortMap (None # hosts) hostPortMap = Panics ''nil pointer dereference''"
| "fillHostPortMap (Some host # hosts) hostPortMap =
     (let hostPort = Split (Addr host)
      in if length hostPort \<noteq> 2 then Panics ''Invalid host:port''
         else (case Atoi (hostPort ! 1) of
                 None \<Rightarrow> Panics ''Invalid port''
               | Some port \<Rightarrow> fillHostPortMap hosts (hostPortMap(hostPort ! 0 \<mapsto> port))))"

text \<open>
  The loop over the resources that the topology service returned: each is looked up in
  \<^verbatim>\<open>hostPortMap\<close> and resolved by the registry. The first resolution error ends the
  selection with no hosts.
\<close>

fun resolveResources ::
  "DistancePlacement \<Rightarrow> string \<Rightarrow> (string \<rightharpoonup> int) \<Rightarrow> string list \<Rightarrow> HostInfo option list
    \<Rightarrow> event list \<times> (HostInfo option list \<times> error option) outcome" where
  "resolveResources p service hostPortMap [] hosts = ([], Returns (hosts, None))"
| "resolveResources p service hostPortMap (resource # resources) hosts =
     (case hostPortMap resource of
        None \<Rightarrow> ([], Panics ''Invalid resource'')
      | Some port \<Rightarrow>
          (case rpm_FindHostForAddr (ctx p) service (resource @ '':'' @ Itoa port) of
             Inl e \<Rightarrow>
               ([CallFindHostForAddr service (resource @ '':'' @ Itoa port)], Returns ([], Some e))
           | Inr host \<Rightarrow>
               andThen ([CallFindHostForAddr service (resource @ '':'' @ Itoa port)], Returns ())
                 (\<lambda>_. resolveResources p service hostPortMap resources (hosts @ [host]))))"

text \<open>
  \<^verbatim>\<open>pickHosts\<close>. A Go slice has a length and a capacity: \<open>poolHosts\<close> are the elements of the
  pool, and \<open>poolSpare\<close> is what its backing array holds behind them, up to the capacity.
  The slice expression \<^verbatim>\<open>poolHosts[:count]\<close> is bounded by the capacity, not by the length:
  it panics when \<open>count\<close> is negative or beyond the capacity, and beyond the length it
  reaches into the spare slots. Everything else in \<^verbatim>\<open>pickHosts\<close> ranges over the elements
  only.
\<close>

definition pickHosts ::
  "DistancePlacement \<Rightarrow> string \<Rightarrow> HostInfo option list \<Rightarrow> HostInfo option list
    \<Rightarrow> HostInfo option list \<Rightarrow> int \<Rightarrow> 16 word \<Rightarrow> 16 word
    \<Rightarrow> event list \<times> (HostInfo option list \<times> error option) outcome" where
  "pickHosts p service poolHosts poolSpare sourceHosts cnt minDistance maxDistance =
     (case distMap p of
        None \<Rightarrow>
          (if 0 \<le> cnt \<and> cnt \<le> int (length poolHosts + length poolSpare)
           then ([], Returns (take (nat cnt) (poolHosts @ poolSpare), None))
           else ([], Panics ''slice bounds out of range''))
      | Some FindResources \<Rightarrow>
          andThen ([], toResources sourceHosts) (\<lambda>sourceResources.
          andThen ([], toResources poolHosts) (\<lambda>poolResources.
          andThen ([], fillHostPortMap poolHosts Map.empty) (\<lambda>hostPortMap.
            (case FindResources poolResources sourceResources ''nic'' cnt minDistance maxDistance of
               Inl err \<Rightarrow>
                 ([CallFindResources poolResources sourceResources ''nic'' cnt minDistance maxDistance],
                  Returns ([], Some err))
             | Inr resources \<Rightarrow>
                 andThen
                   ([CallFindResources poolResources sourceResources ''nic'' cnt minDistance maxDistance],
                    Returns ())
                   (\<lambda>_. resolveResources p service hostPortMap resources []))))))"


section \<open>The eligibility filter\<close>

text \<open>
  \<^verbatim>\<open>doesStoreMeetConstraints\<close>. A failed type assertion on the configuration object is
  reported with \<^verbatim>\<open>Fatal\<close>, which ends the process.
\<close>

definition doesStoreMeetConstraints :: "DistancePlacement \<Rightarrow> HostInfo option \<Rightarrow> bool outcome" where
  "doesStoreMeetConstraints p host =
     (case host of
        None \<Rightarrow> Panics ''nil pointer dereference''
      | Some h \<Rightarrow>
          (case cfgMgr_Get (ctx p) (StoreServiceName p) ''*'' (Sku h) (Name h) of
             Inl err \<Rightarrow> Returns True
           | Inr OtherConfig \<Rightarrow> Exits
           | Inr (IsStorePlacementConfig cfg) \<Rightarrow>
               (if AdminStatus cfg \<noteq> ''enabled'' then Returns False
                else (case loadMetrics_Get (ctx p) (UUID h) of
                        Inl err \<Rightarrow> Returns True
                      | Inr val \<Rightarrow>
                          (if val \<le> MinFreeDiskSpaceBytes cfg then Returns False
                           else Returns True)))))"

text \<open>The loop of \<^verbatim>\<open>findEligibleStoreHosts\<close> that keeps the hosts meeting the constraints.\<close>

fun keepEligible :: "DistancePlacement \<Rightarrow> HostInfo option list \<Rightarrow> HostInfo option list outcome" where
  "keepEligible p [] = Returns []"
| "keepEligible p (h # storeHosts) =
     (case doesStoreMeetConstraints p h of
        Panics msg \<Rightarrow> Panics msg
      | Exits \<Rightarrow> Exits
      | Returns ok \<Rightarrow>
          (case keepEligible p storeHosts of
             Returns result \<Rightarrow> Returns (if ok then h # result else result)
           | Panics msg \<Rightarrow> Panics msg
           | Exits \<Rightarrow> Exits))"

definition findEligibleStoreHosts ::
  "DistancePlacement \<Rightarrow> event list \<times> (HostInfo option list \<times> error option) outcome" where
  "findEligibleStoreHosts p =
     (case rpm_GetHosts (ctx p) (StoreServiceName p) of
        Inl err \<Rightarrow> ([CallGetHosts (StoreServiceName p)], Returns ([], Some err))
      | Inr storeHosts \<Rightarrow>
          andThen ([CallGetHosts (StoreServiceName p)], keepEligible p storeHosts) (\<lambda>result.
            if length result = 0 then ([], Returns ([], Some errNoStoreHosts))
            else ([], Returns (result, None))))"

text \<open>
  \<^verbatim>\<open>findEligibleStoreHosts\<close> makes its result with length 0 and the capacity of the
  registry's list (\<^verbatim>\<open>make([]*common.HostInfo, 0, len(storeHosts))\<close>) and appends the eligible
  hosts. Behind the elements of the result, the backing array therefore holds one nil
  pointer for every host that was filtered out: the spare slots of the slice that
  \<^verbatim>\<open>PickStoreHosts\<close> passes on as the pool.
\<close>

definition eligibleSpare :: "DistancePlacement \<Rightarrow> HostInfo option list \<Rightarrow> HostInfo option list" where
  "eligibleSpare p result =
     (case rpm_GetHosts (ctx p) (StoreServiceName p) of
        Inl err \<Rightarrow> []
      | Inr storeHosts \<Rightarrow> replicate (length storeHosts - length result) None)"

section \<open>The placement service\<close>

text \<open>\<^verbatim>\<open>&common.HostInfo{}\<close>: a fresh host record with every field empty.\<close>

definition emptyHostInfo :: HostInfo where
  "emptyHostInfo = \<lparr>UUID = [], Addr = [], Name = [], Sku = []\<rparr>"

text \<open>
  \<^verbatim>\<open>pickHostsWithFallback\<close>. The counter table is passed in and, when the call returns,
  passed out next to the returned pair.
\<close>

definition pickHostsWithFallback ::
  "DistancePlacement \<Rightarrow> rrMap \<Rightarrow> string \<Rightarrow> 16 word \<Rightarrow> 16 word \<Rightarrow> 16 word \<Rightarrow> 16 word
    \<Rightarrow> HostInfo option list
    \<Rightarrow> event list \<times> ((HostInfo option \<times> error option) \<times> rrMap) outcome" where
  "pickHostsWithFallback p rr service minDistance maxDistance minFallback maxFallback storeHosts =
     (case rpm_GetHosts (ctx p) service of
        Inr hosts \<Rightarrow>
          (let maxDistance' = (if maxDistance \<le> minDistance then InfiniteDistance p else maxDistance)
           in andThen ([CallGetHosts service], roundRobinCull rr hosts 1 service)
                (\<lambda>(culledHosts, hosts', rr').
                   if length culledHosts = 1
                   then ([], Returns ((Some (culledHosts ! 0), None), rr'))
                   else ([], Returns ((Some emptyHostInfo, Some errNoHosts), rr'))))
      | Inl err \<Rightarrow>
          ([CallGetHosts service], Returns ((Some emptyHostInfo, Some errNoHosts), rr)))"

definition PickInputHost ::
  "DistancePlacement \<Rightarrow> rrMap \<Rightarrow> HostInfo option list
    \<Rightarrow> event list \<times> ((HostInfo option \<times> error option) \<times> rrMap) outcome" where
  "PickInputHost p rr storeHosts =
     andThen
       (pickHostsWithFallback p rr (InputServiceName p)
          (MinInputToStoreDistance (appConfig (ctx p)))
          (MaxInputToStoreDistance (appConfig (ctx p)))
          (MinInputToStoreFallbackDistance (appConfig (ctx p)))
          (MaxInputToStoreFallbackDistance (appConfig (ctx p)))
          storeHosts)
       (\<lambda>((host, err), rr').
          if err \<noteq> None then ([], Returns ((Some emptyHostInfo, Some errNoInputHosts), rr'))
          else ([], Returns ((host, None), rr')))"

definition PickOutputHost ::
  "DistancePlacement \<Rightarrow> rrMap \<Rightarrow> HostInfo option list
    \<Rightarrow> event list \<times> ((HostInfo option \<times> error option) \<times> rrMap) outcome" where
  "PickOutputHost p rr storeHosts =
     andThen
       (pickHostsWithFallback p rr (OutputServiceName p)
          (MinOutputToStoreDistance (appConfig (ctx p)))
          (MaxOutputToStoreDistance (appConfig (ctx p)))
          (MinOutputToStoreFallbackDistance (appConfig (ctx p)))
          (MaxOutputToStoreFallbackDistance (appConfig (ctx p)))
          storeHosts)
       (\<lambda>((host, err), rr').
          if err \<noteq> None then ([], Returns ((Some emptyHostInfo, Some errNoOutputHosts), rr'))
          else ([], Returns ((host, None), rr')))"

text \<open>
  The two \<^verbatim>\<open>if\<close> statements that \<^verbatim>\<open>PickStoreHosts\<close> applies to the primary band and, again,
  to the fallback band.
\<close>

definition normalizeBand :: "DistancePlacement \<Rightarrow> 16 word \<times> 16 word \<Rightarrow> 16 word \<times> 16 word" where
  "normalizeBand p band =
     (let minDistance = (if fst band \<le> ZeroDistance then ZeroDistance + 1 else fst band);
          maxDistance = (if snd band \<le> minDistance then InfiniteDistance p else snd band)
      in (minDistance, maxDistance))"

text \<open>The last attempt of \<^verbatim>\<open>PickStoreHosts\<close>: the cull, and the final \<^verbatim>\<open>errNoStoreHosts\<close>.\<close>

definition cullStoreHosts ::
  "rrMap \<Rightarrow> HostInfo option list \<Rightarrow> int
    \<Rightarrow> event list \<times> ((HostInfo option list \<times> error option) \<times> rrMap) outcome" where
  "cullStoreHosts rr storeHosts cnt =
     andThen ([], roundRobinCull rr storeHosts cnt ''PickStoreHosts'')
       (\<lambda>(culledStoreHosts, storeHosts', rr').
          if int (length culledStoreHosts) = cnt
          then ([], Returns ((map Some culledStoreHosts, None), rr'))
          else ([], Returns (([], Some errNoStoreHosts), rr')))"

definition PickStoreHosts ::
  "DistancePlacement \<Rightarrow> rrMap \<Rightarrow> int
    \<Rightarrow> event list \<times> ((HostInfo option list \<times> error option) \<times> rrMap) outcome" where
  "PickStoreHosts p rr cnt =
     andThen (findEligibleStoreHosts p) (\<lambda>(storeHosts, err).
       if err = None then
         (if int (length storeHosts) < cnt then ([], Returns (([], Some errNoHosts), rr))
          else
            (let band = normalizeBand p
                   (MinStoreToStoreDistance (appConfig (ctx p)),
                    MaxStoreToStoreDistance (appConfig (ctx p)));
                 minDistance = fst band;
                 maxDistance = snd band
             in andThen
                  (pickHosts p (StoreServiceName p) storeHosts (eligibleSpare p storeHosts) [] cnt minDistance maxDistance)
                  (\<lambda>(hosts, e).
                     if e = None then ([], Returns ((hosts, None), rr))
                     else
                       (let minFallback = MinStoreToStoreFallbackDistance (appConfig (ctx p));
                            maxFallback = MaxStoreToStoreFallbackDistance (appConfig (ctx p))
                        in if minFallback < minDistance \<or> maxFallback > maxDistance
                           then
                             (let fallback = normalizeBand p (minFallback, maxFallback)
                              in andThen
                                   (pickHosts p (StoreServiceName p) storeHosts (eligibleSpare p storeHosts) [] cnt
                                      (fst fallback) (snd fallback))
                                   (\<lambda>(hosts, e).
                                      if e = None then ([], Returns ((hosts, None), rr))
                                      else cullStoreHosts rr storeHosts cnt))
                           else cullStoreHosts rr storeHosts cnt))))
       else ([], Returns (([], Some errNoStoreHosts), rr)))"


section \<open>The bands of store placement\<close>

text \<open>
  Names for three expressions of \<^verbatim>\<open>PickStoreHosts\<close>: the configured store-to-store band after
  its two \<^verbatim>\<open>if\<close> statements, the configured fallback band after the same, and the test
  that guards the second attempt, which compares the fallback band as configured with the
  primary band as normalized.
\<close>

definition primaryBand :: "DistancePlacement \<Rightarrow> 16 word \<times> 16 word" where
  "primaryBand p =
     normalizeBand p
       (MinStoreToStoreDistance (appConfig (ctx p)), MaxStoreToStoreDistance (appConfig (ctx p)))"

definition fallbackBand :: "DistancePlacement \<Rightarrow> 16 word \<times> 16 word" where
  "fallbackBand p =
     normalizeBand p
       (MinStoreToStoreFallbackDistance (appConfig (ctx p)),
        MaxStoreToStoreFallbackDistance (appConfig (ctx p)))"

definition fallbackWidens :: "DistancePlacement \<Rightarrow> bool" where
  "fallbackWidens p \<longleftrightarrow>
     MinStoreToStoreFallbackDistance (appConfig (ctx p)) < fst (primaryBand p)
     \<or> MaxStoreToStoreFallbackDistance (appConfig (ctx p)) > snd (primaryBand p)"

section \<open>Distance queries in a trace\<close>

text \<open>The calls to the topology service among the events of a call.\<close>

fun isFindResources :: "event \<Rightarrow> bool" where
  "isFindResources (CallFindResources pool sources resourceType cnt minDistance maxDistance) = True"
| "isFindResources (CallGetHosts service) = False"
| "isFindResources (CallFindHostForAddr service addr) = False"

definition distanceQueries :: "event list \<Rightarrow> event list" where
  "distanceQueries tr = filter isFindResources tr"

text \<open>
  The answers that the topology service of a placement gives, without an error, to the
  distance queries among the events of a call.
\<close>

fun answerOf :: "DistancePlacement \<Rightarrow> event \<Rightarrow> string list list" where
  "answerOf p (CallFindResources pool sources resourceType cnt minDistance maxDistance) =
     (case distMap p of
        None \<Rightarrow> []
      | Some FindResources \<Rightarrow>
          (case FindResources pool sources resourceType cnt minDistance maxDistance of
             Inl err \<Rightarrow> []
           | Inr resources \<Rightarrow> [resources]))"
| "answerOf p (CallGetHosts service) = []"
| "answerOf p (CallFindHostForAddr service addr) = []"

definition answeredQueries :: "DistancePlacement \<Rightarrow> event list \<Rightarrow> string list list" where
  "answeredQueries p tr = concat (map (answerOf p) tr)"

section \<open>Example data\<close>

text \<open>Hosts and collaborators for the concrete instances below.\<close>

definition host :: "string \<Rightarrow> string \<Rightarrow> HostInfo" where
  "host u a = \<lparr>UUID = u, Addr = a, Name = u, Sku = ''sku''\<rparr>"

definition pool3 :: "HostInfo list" where
  "pool3 = [host ''u1'' ''h1:100'', host ''u2'' ''h2:200'', host ''u3'' ''h3:300'']"

text \<open>
  A registry of the three hosts of \<open>pool3\<close>. Host \<open>u1\<close> is configured and has disk space
  to spare, host \<open>u2\<close> has neither a configuration nor metrics, host \<open>u3\<close> is configured
  and reports less free space than its minimum. The store-to-store band is 1 to 5, the
  fallback band 2 to 4, and the topology service finds no resources.
\<close>

definition exampleConfig :: ControllerConfig where
  "exampleConfig =
     \<lparr>MinInputToStoreDistance = 0, MaxInputToStoreDistance = 0,
      MinInputToStoreFallbackDistance = 0, MaxInputToStoreFallbackDistance = 0,
      MinOutputToStoreDistance = 0, MaxOutputToStoreDistance = 0,
      MinOutputToStoreFallbackDistance = 0, MaxOutputToStoreFallbackDistance = 0,
      MinStoreToStoreDistance = 1, MaxStoreToStoreDistance = 5,
      MinStoreToStoreFallbackDistance = 2, MaxStoreToStoreFallbackDistance = 4\<rparr>"

definition exampleContext :: Context where
  "exampleContext =
     \<lparr>appConfig = exampleConfig,
      rpm_GetHosts = (\<lambda>service. Inr (map Some pool3)),
      rpm_FindHostForAddr = (\<lambda>service addr.
        case find (\<lambda>h. Addr h = addr) pool3 of
          None \<Rightarrow> Inl (CollaboratorError ''no such host'')
        | Some h \<Rightarrow> Inr (Some h)),
      cfgMgr_Get = (\<lambda>service wildcard sku name.
        if name = ''u1'' \<or> name = ''u3''
        then Inr (IsStorePlacementConfig \<lparr>AdminStatus = ''enabled'', MinFreeDiskSpaceBytes = 100\<rparr>)
        else Inl (CollaboratorError ''no config'')),
      loadMetrics_Get = (\<lambda>uuid.
        if uuid = ''u1'' then Inr 500
        else if uuid = ''u3'' then Inr 50
        else Inl (CollaboratorError ''no metrics''))\<rparr>"

definition noResources :: distance_Map where
  "noResources pool sources resourceType cnt minDistance maxDistance =
     Inl (CollaboratorError ''no resources'')"

definition examplePlacement :: DistancePlacement where
  "examplePlacement =
     \<lparr>ctx = exampleContext, distMap = Some noResources,
      InputServiceName = ''input'', OutputServiceName = ''output'',
      StoreServiceName = ''store'', InfiniteDistance = 65535\<rparr>"

text \<open>The example placement with other store-to-store bands: primary, then fallback.\<close>

definition withBands ::
  "16 word \<Rightarrow> 16 word \<Rightarrow> 16 word \<Rightarrow> 16 word \<Rightarrow> DistancePlacement \<Rightarrow> DistancePlacement" where
  "withBands mn mx mnFallback mxFallback p =
     p\<lparr>ctx := (ctx p)\<lparr>appConfig := (appConfig (ctx p))
       \<lparr>MinStoreToStoreDistance := mn, MaxStoreToStoreDistance := mx,
        MinStoreToStoreFallbackDistance := mnFallback,
        MaxStoreToStoreFallbackDistance := mxFallback\<rparr>\<rparr>\<rparr>"

text \<open>
  Two more topology services: one that answers every query with no resources and no
  error, and one that answers with the first \<open>count\<close> resources of a pool without
  repetitions and fails otherwise.
\<close>

definition emptyAnswer :: distance_Map where
  "emptyAnswer pool sources resourceType cnt minDistance maxDistance = Inr []"

definition firstResources :: distance_Map where
  "firstResources pool sources resourceType cnt minDistance maxDistance =
     (if 0 \<le> cnt \<and> cnt \<le> int (length pool) \<and> distinct pool then Inr (take (nat cnt) pool)
      else Inl (CollaboratorError ''no resources''))"

section \<open>Repeated culls over a fixed pool\<close>

text \<open>
  \<open>n\<close> consecutive calls \<^verbatim>\<open>roundRobinCull(pool, 1, note)\<close>, each on a fresh slice of the same
  hosts, threading the counter table: what each call returned, and the table at the end.
\<close>

fun cull_calls :: "rrMap \<Rightarrow> HostInfo list \<Rightarrow> nat \<Rightarrow> HostInfo list list \<times> rrMap" where
  "cull_calls rr pool 0 = ([], rr)"
| "cull_calls rr pool (Suc n) =
     (case roundRobinCull rr (map Some pool) 1 ''cull'' of
        Returns (out, inp', rr') \<Rightarrow>
          (out # fst (cull_calls rr' pool n), snd (cull_calls rr' pool n))
      | Panics msg \<Rightarrow> ([], rr)
      | Exits \<Rightarrow> ([], rr))"

section \<open>Properties of the culler\<close>

lemma addMinimums_slots:
  "list_all2 (\<lambda>a b. a = None \<or> a = b) (snd (addMinimums rr mn cnt inp out)) inp"
  by (induction rr mn cnt inp out rule: addMinimums.induct) (simp_all add: list_all2_refl)


lemma room_Cons:
  "room cnt out (x # xs) = (if int (length out) + 1 = cnt then [x] else x # room cnt (out @ [x]) xs)"
proof (cases "int (length out) < cnt")
  case True
  then have n: "nat (cnt - int (length out)) = Suc (nat (cnt - int (length (out @ [x]))))"
    by simp
  show ?thesis
  proof (cases "int (length out) + 1 = cnt")
    case True
    then have "nat (cnt - int (length out)) = Suc 0" by simp
    with True show ?thesis by (simp add: room_def)
  next
    case False
    with True have "int (length (out @ [x])) < cnt" by simp
    then show ?thesis
      using True False by (simp only: room_def n if_True if_False take_Suc_Cons)
  qed
next
  case False
  then show ?thesis by (simp add: room_def)
qed

lemma fst_addMinimums:
  "fst (addMinimums rr mn cnt inp out)
    = out @ room cnt out (filter (\<lambda>hi. rr_get rr (UUID hi) = mn) (live inp))"
proof (induction rr mn cnt inp out rule: addMinimums.induct)
  case (1 rr mn cnt out)
  show ?case by (simp add: room_def)
next
  case (2 rr mn cnt rest out)
  then show ?case by simp
next
  case (3 rr mn cnt hi rest out)
  then show ?case
    by (simp add: room_Cons)
qed

lemma filter_none_keeps:
  "filter P xs = [] \<Longrightarrow> filter (\<lambda>x. \<not> P x) xs = xs"
  by (induction xs) (auto split: if_splits)

lemma live_snd_addMinimums_mset:
  "mset (live inp)
    = mset (room cnt out (filter (\<lambda>hi. rr_get rr (UUID hi) = mn) (live inp)))
      + mset (live (snd (addMinimums rr mn cnt inp out)))"
proof (induction rr mn cnt inp out rule: addMinimums.induct)
  case (1 rr mn cnt out)
  show ?case by (simp add: room_def)
next
  case (2 rr mn cnt rest out)
  then show ?case by simp
next
  case (3 rr mn cnt hi rest out)
  then show ?case
    by (simp add: room_Cons)
qed

lemma live_snd_addMinimums_all:
  "room cnt out (filter (\<lambda>hi. rr_get rr (UUID hi) = mn) (live inp))
      = filter (\<lambda>hi. rr_get rr (UUID hi) = mn) (live inp)
    \<Longrightarrow> live (snd (addMinimums rr mn cnt inp out))
      = filter (\<lambda>hi. rr_get rr (UUID hi) \<noteq> mn) (live inp)"
proof (induction rr mn cnt inp out rule: addMinimums.induct)
  case (1 rr mn cnt out)
  show ?case by simp
next
  case (2 rr mn cnt rest out)
  then show ?case by simp
next
  case (3 rr mn cnt hi rest out)
  then show ?case
    by (simp add: room_Cons filter_none_keeps split: if_splits)
qed

lemma findNextMinimum_slots:
  "list_all2 (\<lambda>a b. a = None \<or> a = b) (snd (findNextMinimum rr cnt inp out)) inp"
proof (induction rr cnt inp out rule: findNextMinimum.induct)
  case (1 rr cnt inp out)
  define mn where "mn = findCurrentMinimum rr inp MaxInt32"
  define r where "r = addMinimums rr mn cnt inp out"
  have step: "list_all2 (\<lambda>a b. a = None \<or> a = b) (snd r) inp"
    unfolding r_def by (rule addMinimums_slots)
  show ?case
  proof (cases "int (length (fst r)) = cnt \<or> mn = MaxInt32")
    case True
    then have "findNextMinimum rr cnt inp out = r"
      by (subst findNextMinimum.simps) (simp add: mn_def r_def Let_def)
    with step show ?thesis by simp
  next
    case False
    then have eq: "findNextMinimum rr cnt inp out = findNextMinimum rr cnt (snd r) (fst r)"
      by (subst findNextMinimum.simps) (simp add: mn_def r_def Let_def)
    have "list_all2 (\<lambda>a b. a = None \<or> a = b)
        (snd (findNextMinimum rr cnt (snd r) (fst r))) (snd r)"
      using 1 [OF mn_def r_def False] .
    then show ?thesis
      unfolding eq using step
      by (rule list_all2_trans [rotated]) auto
  qed
qed

lemma findNextMinimum_sel:
  "\<exists>sel. fst (findNextMinimum rr cnt inp out) = out @ sel
      \<and> mset (live inp) = mset sel + mset (live (snd (findNextMinimum rr cnt inp out)))
      \<and> (\<forall>hi \<in> set sel. rr_get rr (UUID hi) \<le> MaxInt32)"
proof (induction rr cnt inp out rule: findNextMinimum.induct)
  case (1 rr cnt inp out)
  define mn where "mn = findCurrentMinimum rr inp MaxInt32"
  define r where "r = addMinimums rr mn cnt inp out"
  define sel where "sel = room cnt out (filter (\<lambda>hi. rr_get rr (UUID hi) = mn) (live inp))"
  have le: "mn \<le> MaxInt32"
    unfolding mn_def by (rule findCurrentMinimum_le)
  have f: "fst r = out @ sel"
    unfolding r_def sel_def by (rule fst_addMinimums)
  have m: "mset (live inp) = mset sel + mset (live (snd r))"
    unfolding r_def sel_def by (rule live_snd_addMinimums_mset)
  have "set sel \<subseteq> set (filter (\<lambda>hi. rr_get rr (UUID hi) = mn) (live inp))"
    unfolding sel_def room_def by (auto dest: in_set_takeD)
  with le have b: "\<forall>hi \<in> set sel. rr_get rr (UUID hi) \<le> MaxInt32"
    by auto
  show ?case
  proof (cases "int (length (fst r)) = cnt \<or> mn = MaxInt32")
    case True
    then have "findNextMinimum rr cnt inp out = r"
      by (subst findNextMinimum.simps) (simp add: mn_def r_def Let_def)
    with f m b show ?thesis by auto
  next
    case False
    then have eq: "findNextMinimum rr cnt inp out = findNextMinimum rr cnt (snd r) (fst r)"
      by (subst findNextMinimum.simps) (simp add: mn_def r_def Let_def)
    from 1 [OF mn_def r_def False] obtain sel' where
      s: "fst (findNextMinimum rr cnt (snd r) (fst r)) = fst r @ sel'"
        "mset (live (snd r)) = mset sel' + mset (live (snd (findNextMinimum rr cnt (snd r) (fst r))))"
        "\<forall>hi \<in> set sel'. rr_get rr (UUID hi) \<le> MaxInt32"
      by blast
    show ?thesis
      unfolding eq
      by (rule exI [of _ "sel @ sel'"]) (use f m b s in auto)
  qed
qed

lemma roundRobinCull_Returns:
  "roundRobinCull rr inp cnt note = Returns (out, inp', rr') \<Longrightarrow>
     0 \<le> cnt \<and> inp' = snd (findNextMinimum rr cnt inp []) \<and>
     (int (length (fst (findNextMinimum rr cnt inp []))) = cnt \<and>
        out = fst (findNextMinimum rr cnt inp []) \<and>
        rr' = foldl (\<lambda>m hi. rr_incr m (UUID hi)) rr out
      \<or> int (length (fst (findNextMinimum rr cnt inp []))) \<noteq> cnt \<and> out = [] \<and> rr' = rr)"
  by (auto simp: roundRobinCull_def Let_def split: if_splits)

text \<open>
  Claim C10. \<^verbatim>\<open>roundRobinCull\<close> mutates the slice it is given: when the call returns, the
  slice has its length, every slot is either untouched or nil, and the candidates that
  have gone from it are exactly those the loop appended to its output (\<open>fst\<close> of
  \<open>findNextMinimum\<close>; the returned slice is that output, or empty when the team could not
  be built). A later call on the same slice no longer sees them.
\<close>

theorem roundRobinCull_clears_selected:
  assumes "roundRobinCull rr inp cnt note = Returns (out, inp', rr')"
  shows "length inp' = length inp
    \<and> (\<forall>i < length inp. inp' ! i = None \<or> inp' ! i = inp ! i)
    \<and> mset (live inp) = mset (fst (findNextMinimum rr cnt inp [])) + mset (live inp')
    \<and> (out = fst (findNextMinimum rr cnt inp []) \<or> out = [])"
proof -
  from assms have i: "inp' = snd (findNextMinimum rr cnt inp [])"
    and o: "out = fst (findNextMinimum rr cnt inp []) \<or> out = []"
    by (auto dest: roundRobinCull_Returns)
  have s: "list_all2 (\<lambda>a b. a = None \<or> a = b) inp' inp"
    unfolding i by (rule findNextMinimum_slots)
  from findNextMinimum_sel [of rr cnt inp "[]"]
  have m: "mset (live inp) = mset (fst (findNextMinimum rr cnt inp [])) + mset (live inp')"
    unfolding i by auto
  from s have "length inp' = length inp"
    and "\<forall>i < length inp. inp' ! i = None \<or> inp' ! i = inp ! i"
    by (auto simp: list_all2_conv_all_nth)
  with m o show ?thesis by blast
qed

theorem roundRobinCull_clears_selected_witness:
  "roundRobinCull (Map.empty(''u1'' \<mapsto> 1))
      [Some (host ''u1'' ''h1:100''), Some (host ''u2'' ''h2:200''), None, Some (host ''u3'' ''h3:300'')] 2 ''n''
    = Returns ([host ''u2'' ''h2:200'', host ''u3'' ''h3:300''],
        [Some (host ''u1'' ''h1:100''), None, None, None],
        Map.empty(''u1'' \<mapsto> 1, ''u2'' \<mapsto> 1, ''u3'' \<mapsto> 1))
   \<and> mset (live [Some (host ''u1'' ''h1:100''), Some (host ''u2'' ''h2:200''), None, Some (host ''u3'' ''h3:300'')])
     = mset (fst (findNextMinimum (Map.empty(''u1'' \<mapsto> 1))  2
        [Some (host ''u1'' ''h1:100''), Some (host ''u2'' ''h2:200''), None, Some (host ''u3'' ''h3:300'')] []))
       + mset (live [Some (host ''u1'' ''h1:100''), None, None, None])"
proof -
  have e: "roundRobinCull (Map.empty(''u1'' \<mapsto> 1))
      [Some (host ''u1'' ''h1:100''), Some (host ''u2'' ''h2:200''), None, Some (host ''u3'' ''h3:300'')] 2 ''n''
    = Returns ([host ''u2'' ''h2:200'', host ''u3'' ''h3:300''],
        [Some (host ''u1'' ''h1:100''), None, None, None],
        Map.empty(''u1'' \<mapsto> 1, ''u2'' \<mapsto> 1, ''u3'' \<mapsto> 1))"
    by (simp add: roundRobinCull_def findNextMinimum.simps [of _ _ "_ # _"] Let_def rr_get_def rr_incr_def
        int64_incr_def MaxInt32_def MaxInt64_def host_def fun_upd_twist)
  from roundRobinCull_clears_selected [OF e] e show ?thesis by simp
qed

lemma rr_get_rr_incr:
  "rr_get (rr_incr rr k) u = (if u = k then int64_incr (rr_get rr k) else rr_get rr u)"
  by (simp add: rr_incr_def rr_get_def)

lemma int64_incr_exact: "v \<le> MaxInt32 \<Longrightarrow> int64_incr v = v + 1"
  by (simp add: int64_incr_def MaxInt32_def MaxInt64_def)







lemma sort_key_min_first:
  fixes f :: "'a \<Rightarrow> int"
  assumes "\<forall>x \<in> set xs. m \<le> f x"
  shows "sort_key f xs = filter (\<lambda>x. f x = m) xs @ sort_key f (filter (\<lambda>x. f x \<noteq> m) xs)"
proof (rule properties_for_sort_key)
  show "mset (filter (\<lambda>x. f x = m) xs @ sort_key f (filter (\<lambda>x. f x \<noteq> m) xs)) = mset xs"
    by simp
next
  fix k
  show "filter (\<lambda>x. f k = f x) (filter (\<lambda>x. f x = m) xs @ sort_key f (filter (\<lambda>x. f x \<noteq> m) xs))
      = filter (\<lambda>x. f k = f x) xs"
  proof (cases "f k = m")
    case True
    have "filter (\<lambda>x. m = f x) (sort_key f (filter (\<lambda>x. f x \<noteq> m) xs)) = []"
      by (auto simp: filter_empty_conv)
    moreover have "filter (\<lambda>x. m = f x) (filter (\<lambda>x. f x = m) xs) = filter (\<lambda>x. m = f x) xs"
      by (auto intro: filter_cong)
    ultimately show ?thesis using True by simp
  next
    case False
    have "filter (\<lambda>x. f x = f k) (sort_key f (filter (\<lambda>x. f x \<noteq> m) xs))
        = filter (\<lambda>x. f x = f k) (filter (\<lambda>x. f x \<noteq> m) xs)"
      by (rule sort_key_stable)
    also have "\<dots> = filter (\<lambda>x. f x = f k) xs"
      using False by (auto intro: filter_cong)
    finally have "filter (\<lambda>x. f k = f x) (sort_key f (filter (\<lambda>x. f x \<noteq> m) xs))
        = filter (\<lambda>x. f k = f x) xs"
      by (simp add: eq_commute)
    moreover have "filter (\<lambda>x. f k = f x) (filter (\<lambda>x. f x = m) xs) = []"
      using False by (auto simp: filter_empty_conv)
    ultimately show ?thesis by simp
  qed
next
  show "sorted (map f (filter (\<lambda>x. f x = m) xs @ sort_key f (filter (\<lambda>x. f x \<noteq> m) xs)))"
  proof -
    have "sorted (map f (filter (\<lambda>x. f x = m) xs))"
      by (induction xs) auto
    moreover have "sorted (map f (sort_key f (filter (\<lambda>x. f x \<noteq> m) xs)))"
      by (rule sorted_sort_key)
    moreover have "\<forall>a \<in> set (filter (\<lambda>x. f x = m) xs).
        \<forall>b \<in> set (sort_key f (filter (\<lambda>x. f x \<noteq> m) xs)). f a \<le> f b"
      using assms by auto
    ultimately show ?thesis
      by (simp add: sorted_append)
  qed
qed

lemma findCurrentMinimum_lower:
  "0 \<le> mn \<Longrightarrow> \<forall>hi \<in> set (live inp). 0 \<le> rr_get rr (UUID hi)
    \<Longrightarrow> \<forall>hi \<in> set (live inp). findCurrentMinimum rr inp mn \<le> rr_get rr (UUID hi)"
proof (induction rr inp mn rule: findCurrentMinimum.induct)
  case (1 rr mn)
  show ?case by simp
next
  case (2 rr rest mn)
  then show ?case by simp
next
  case (3 rr hi rest mn)
  define mn' where "mn' = (if mn > rr_get rr (UUID hi) then rr_get rr (UUID hi) else mn)"
  have le: "mn' \<le> rr_get rr (UUID hi)" and nn: "0 \<le> mn'"
    using 3(2,3) by (auto simp: mn'_def)
  show ?case
  proof (cases "mn' = 0")
    case True
    then have "findCurrentMinimum rr (Some hi # rest) mn = 0"
      by (simp add: mn'_def Let_def)
    with 3(3) show ?thesis by simp
  next
    case False
    then have eq: "findCurrentMinimum rr (Some hi # rest) mn = findCurrentMinimum rr rest mn'"
      by (simp add: mn'_def Let_def)
    have "\<forall>h \<in> set (live rest). findCurrentMinimum rr rest mn' \<le> rr_get rr (UUID h)"
      using 3(1) [OF mn'_def False nn] 3(3) by simp
    moreover have "findCurrentMinimum rr rest mn' \<le> rr_get rr (UUID hi)"
      using findCurrentMinimum_le [of rr rest mn'] le by simp
    ultimately show ?thesis
      unfolding eq by simp
  qed
qed

lemma addMinimums_nothing:
  "live inp = [] \<Longrightarrow> fst (addMinimums rr mn cnt inp out) = out"
  by (simp add: fst_addMinimums room_def)

lemma fst_findNextMinimum_sorted:
  "\<forall>hi \<in> set (live inp). 0 \<le> rr_get rr (UUID hi) \<and> rr_get rr (UUID hi) < MaxInt32
    \<Longrightarrow> int (length out) < cnt
    \<Longrightarrow> fst (findNextMinimum rr cnt inp out)
      = out @ take (nat (cnt - int (length out))) (sort_key (\<lambda>hi. rr_get rr (UUID hi)) (live inp))"
proof (induction rr cnt inp out rule: findNextMinimum.induct)
  case (1 rr cnt inp out)
  define f where "f = (\<lambda>hi :: HostInfo. rr_get rr (UUID hi))"
  define mn where "mn = findCurrentMinimum rr inp MaxInt32"
  define r where "r = addMinimums rr mn cnt inp out"
  define ts where "ts = filter (\<lambda>hi. f hi = mn) (live inp)"
  define k where "k = nat (cnt - int (length out))"
  have range: "\<forall>hi \<in> set (live inp). 0 \<le> f hi \<and> f hi < MaxInt32"
    using 1(2) by (simp add: f_def)
  have k: "int k = cnt - int (length out)" "0 < k"
    using 1(3) by (simp_all add: k_def)
  have fst_r: "fst r = out @ take k ts"
    using 1(3) by (simp add: r_def fst_addMinimums room_def ts_def f_def k_def)
  have low: "\<forall>hi \<in> set (live inp). mn \<le> f hi"
    unfolding mn_def f_def
    by (rule findCurrentMinimum_lower) (use 1(2) in \<open>simp_all add: MaxInt32_def\<close>)
  have sorted: "sort_key f (live inp) = ts @ sort_key f (filter (\<lambda>hi. f hi \<noteq> mn) (live inp))"
    unfolding ts_def using low by (rule sort_key_min_first)
  show ?case
  proof (cases "int (length (fst r)) = cnt \<or> mn = MaxInt32")
    case True
    then have eq: "findNextMinimum rr cnt inp out = r"
      by (subst findNextMinimum.simps) (simp add: mn_def r_def Let_def)
    from True show ?thesis
    proof
      assume "int (length (fst r)) = cnt"
      then have "k \<le> length ts"
        using k by (simp add: fst_r)
      then show ?thesis
        unfolding eq fst_r f_def [symmetric] k_def [symmetric] sorted by simp
    next
      assume "mn = MaxInt32"
      with low range have "live inp = []"
        by (cases "live inp") auto
      then show ?thesis
        unfolding eq r_def by (simp add: addMinimums_nothing)
    qed
  next
    case False
    then have eq: "findNextMinimum rr cnt inp out = findNextMinimum rr cnt (snd r) (fst r)"
      by (subst findNextMinimum.simps) (simp add: mn_def r_def Let_def)
    from False have short: "length ts < k"
      using k by (simp add: fst_r min_def split: if_splits)
    then have all: "take k ts = ts" by simp
    have "room cnt out ts = ts"
      using 1(3) all by (simp add: room_def k_def)
    then have live_r: "live (snd r) = filter (\<lambda>hi. f hi \<noteq> mn) (live inp)"
      unfolding r_def ts_def f_def by (rule live_snd_addMinimums_all)
    have len: "int (length (fst r)) < cnt"
      using short k by (simp add: fst_r all)
    have "\<forall>hi \<in> set (live (snd r)). 0 \<le> rr_get rr (UUID hi) \<and> rr_get rr (UUID hi) < MaxInt32"
      using 1(2) by (simp add: live_r)
    from 1(1) [OF mn_def r_def False this len]
    have "fst (findNextMinimum rr cnt (snd r) (fst r))
        = fst r @ take (nat (cnt - int (length (fst r)))) (sort_key f (live (snd r)))"
      by (simp add: f_def)
    moreover have "nat (cnt - int (length (fst r))) = k - length ts"
      using k by (simp add: fst_r all)
    ultimately show ?thesis
      unfolding eq f_def [symmetric] k_def [symmetric] sorted
      by (simp add: fst_r all live_r)
  qed
qed

lemma live_map_Some [simp]: "live (map Some pool) = pool"
  by (induction pool) simp_all

lemma roundRobinCull_sorted:
  assumes "\<forall>hi \<in> set (live inp). 0 \<le> rr_get rr (UUID hi) \<and> rr_get rr (UUID hi) < MaxInt32"
    and "0 < cnt" and "cnt \<le> int (length (live inp))"
  shows "roundRobinCull rr inp cnt note
    = Returns (take (nat cnt) (sort_key (\<lambda>hi. rr_get rr (UUID hi)) (live inp)),
        snd (findNextMinimum rr cnt inp []),
        foldl (\<lambda>m hi. rr_incr m (UUID hi)) rr
          (take (nat cnt) (sort_key (\<lambda>hi. rr_get rr (UUID hi)) (live inp))))"
proof -
  have "fst (findNextMinimum rr cnt inp [])
      = take (nat (cnt - int (length ([] :: HostInfo list)))) (sort_key (\<lambda>hi. rr_get rr (UUID hi)) (live inp))"
    using fst_findNextMinimum_sorted [OF assms(1), of "[]" cnt] assms(2) by simp
  then have f: "fst (findNextMinimum rr cnt inp [])
      = take (nat cnt) (sort_key (\<lambda>hi. rr_get rr (UUID hi)) (live inp))"
    by simp
  have "int (length (fst (findNextMinimum rr cnt inp []))) = cnt"
    unfolding f using assms(2,3) by simp
  then show ?thesis
    using assms(2) by (simp add: roundRobinCull_def Let_def f)
qed

lemma filter_eq_drop:
  "\<forall>i < length xs. Q (xs ! i) = (k \<le> i) \<Longrightarrow> filter Q xs = drop k xs"
proof (induction xs arbitrary: k)
  case Nil
  show ?case by simp
next
  case (Cons x xs)
  show ?case
  proof (cases k)
    case 0
    with Cons.prems have "\<forall>y \<in> set (x # xs). Q y"
      by (metis in_set_conv_nth le0)
    then have "filter Q (x # xs) = x # xs"
      by (simp only: filter_True)
    with 0 show ?thesis by simp
  next
    case (Suc k')
    from Cons.prems [rule_format, of 0] Suc have "\<not> Q x" by simp
    moreover have "\<forall>i < length xs. Q (xs ! i) = (k' \<le> i)"
      using Cons.prems [rule_format, of "Suc i" for i] Suc by simp
    then have "filter Q xs = drop k' xs" by (rule Cons.IH)
    ultimately show ?thesis using Suc by simp
  qed
qed

text \<open>The table after the first \<open>k\<close> hosts of the pool have been served once.\<close>

lemma cull_one_step:
  assumes d: "distinct (map UUID pool)" and k: "k < length pool"
    and inv: "\<forall>i < length pool. rr_get rr (UUID (pool ! i)) = (if i < k then 1 else 0)"
  shows "\<exists>inp'. roundRobinCull rr (map Some pool) 1 note
      = Returns ([pool ! k], inp', rr_incr rr (UUID (pool ! k)))"
    and "\<forall>i < length pool. rr_get (rr_incr rr (UUID (pool ! k))) (UUID (pool ! i))
      = (if i < Suc k then 1 else 0)"
proof -
  define f where "f = (\<lambda>hi :: HostInfo. rr_get rr (UUID hi))"
  have range: "\<forall>hi \<in> set (live (map Some pool)). 0 \<le> rr_get rr (UUID hi) \<and> rr_get rr (UUID hi) < MaxInt32"
    using inv by (auto simp: in_set_conv_nth MaxInt32_def)
  have low: "\<forall>hi \<in> set pool. 0 \<le> f hi"
    using range by (simp add: f_def)
  have "filter (\<lambda>hi. f hi = 0) pool = drop k pool"
    by (rule filter_eq_drop) (use inv in \<open>auto simp: f_def\<close>)
  with sort_key_min_first [OF low]
  have "sort_key f pool = drop k pool @ sort_key f (filter (\<lambda>hi. f hi \<noteq> 0) pool)"
    by simp
  moreover have "take 1 (drop k pool) = [pool ! k]"
    using k by (simp add: take_Suc_conv_app_nth)
  ultimately have t: "take (nat 1) (sort_key f pool) = [pool ! k]"
    using k by simp
  have "roundRobinCull rr (map Some pool) 1 note
      = Returns (take (nat 1) (sort_key f (live (map Some pool))),
          snd (findNextMinimum rr 1 (map Some pool) []),
          foldl (\<lambda>m hi. rr_incr m (UUID hi)) rr (take (nat 1) (sort_key f (live (map Some pool)))))"
    unfolding f_def by (rule roundRobinCull_sorted [OF range]) (use k in simp_all)
  then show "\<exists>inp'. roundRobinCull rr (map Some pool) 1 note
      = Returns ([pool ! k], inp', rr_incr rr (UUID (pool ! k)))"
    using t by simp
  show "\<forall>i < length pool. rr_get (rr_incr rr (UUID (pool ! k))) (UUID (pool ! i))
      = (if i < Suc k then 1 else 0)"
  proof (intro allI impI)
    fix i assume i: "i < length pool"
    have "UUID (pool ! i) = UUID (pool ! k) \<longleftrightarrow> i = k"
      using d i k by (metis distinct_conv_nth length_map nth_map)
    with inv i k show "rr_get (rr_incr rr (UUID (pool ! k))) (UUID (pool ! i))
        = (if i < Suc k then 1 else 0)"
      by (auto simp: rr_get_rr_incr int64_incr_exact MaxInt32_def less_Suc_eq)
  qed
qed

lemma cull_calls_served:
  assumes d: "distinct (map UUID pool)"
  shows "k + n \<le> length pool
    \<Longrightarrow> \<forall>i < length pool. rr_get rr (UUID (pool ! i)) = (if i < k then 1 else 0)
    \<Longrightarrow> fst (cull_calls rr pool n) = map (\<lambda>hi. [hi]) (take n (drop k pool))
      \<and> (\<forall>i < length pool. rr_get (snd (cull_calls rr pool n)) (UUID (pool ! i))
            = (if i < k + n then 1 else 0))"
proof (induction n arbitrary: k rr)
  case 0
  then show ?case by simp
next
  case (Suc n)
  from Suc.prems have k: "k < length pool" by simp
  from cull_one_step(1) [OF d k Suc.prems(2), of "''cull''"]
    cull_one_step(2) [OF d k Suc.prems(2)] obtain inp' where
    step: "roundRobinCull rr (map Some pool) 1 ''cull''
      = Returns ([pool ! k], inp', rr_incr rr (UUID (pool ! k)))"
    and inv': "\<forall>i < length pool. rr_get (rr_incr rr (UUID (pool ! k))) (UUID (pool ! i))
      = (if i < Suc k then 1 else 0)"
    by blast
  from Suc.prems have "Suc k + n \<le> length pool" by simp
  from Suc.IH [OF this inv']
  have ih: "fst (cull_calls (rr_incr rr (UUID (pool ! k))) pool n)
        = map (\<lambda>hi. [hi]) (take n (drop (Suc k) pool))"
    "\<forall>i < length pool. rr_get (snd (cull_calls (rr_incr rr (UUID (pool ! k))) pool n)) (UUID (pool ! i))
        = (if i < Suc k + n then 1 else 0)"
    by simp_all
  have "take (Suc n) (drop k pool) = pool ! k # take n (drop (Suc k) pool)"
    using k by (metis Cons_nth_drop_Suc take_Suc_Cons)
  with ih step show ?case
    by simp
qed

text \<open>
  Claim C6. For a pool of hosts with pairwise distinct UUIDs and an empty counter table:
  as many consecutive culls of one host as the pool has hosts return every host of the
  pool exactly once (in pool order); after any number of these calls, up to that many,
  the counters of two hosts of the pool differ by at most 1. Within one call, for any
  counters from 0 to below \<^verbatim>\<open>math.MaxInt32\<close> and any \<open>count\<close> from 1 to the size of the pool: the
  result is the first \<open>count\<close> hosts of the pool sorted by counter with the stable sort of
  the library, that is, hosts with the same counter keep their pool order and no host is
  taken before one with a smaller counter; spelled out for the lowest tier: if no counter
  is below \<open>m\<close>, the result starts with the hosts at \<open>m\<close> in pool order, as many as \<open>count\<close>
  allows.
\<close>

theorem cull_fairness:
  assumes "distinct (map UUID pool)"
  shows "fst (cull_calls Map.empty pool (length pool)) = map (\<lambda>hi. [hi]) pool
    \<and> (\<forall>n \<le> length pool. \<forall>a \<in> set pool. \<forall>b \<in> set pool.
          \<bar>rr_get (snd (cull_calls Map.empty pool n)) (UUID a)
            - rr_get (snd (cull_calls Map.empty pool n)) (UUID b)\<bar> \<le> 1)
    \<and> (\<forall>rr cnt note.
          (\<forall>hi \<in> set pool. 0 \<le> rr_get rr (UUID hi) \<and> rr_get rr (UUID hi) < MaxInt32)
          \<longrightarrow> 0 < cnt \<longrightarrow> cnt \<le> int (length pool)
          \<longrightarrow> (\<exists>out inp' rr'.
                roundRobinCull rr (map Some pool) cnt note = Returns (out, inp', rr')
                \<and> out = take (nat cnt) (sort_key (\<lambda>hi. rr_get rr (UUID hi)) pool)
                \<and> (\<forall>m. (\<forall>hi \<in> set pool. m \<le> rr_get rr (UUID hi))
                      \<longrightarrow> take (length (filter (\<lambda>hi. rr_get rr (UUID hi) = m) pool)) out
                          = take (nat cnt) (filter (\<lambda>hi. rr_get rr (UUID hi) = m) pool))))"
proof (intro conjI allI impI ballI)
  have zero: "\<forall>i < length pool. rr_get Map.empty (UUID (pool ! i)) = (if i < 0 then 1 else 0)"
    by (simp add: rr_get_def)
  show "fst (cull_calls Map.empty pool (length pool)) = map (\<lambda>hi. [hi]) pool"
    using cull_calls_served [OF assms, of 0 "length pool" Map.empty] zero by simp
  {
    fix n a b
    assume n: "n \<le> length pool" and a: "a \<in> set pool" and b: "b \<in> set pool"
    from cull_calls_served [OF assms, of 0 n Map.empty] zero n
    have served: "\<forall>i < length pool. rr_get (snd (cull_calls Map.empty pool n)) (UUID (pool ! i))
        = (if i < n then 1 else 0)"
      by simp
    from a b obtain i j where "i < length pool" "a = pool ! i" "j < length pool" "b = pool ! j"
      by (metis in_set_conv_nth)
    with served show "\<bar>rr_get (snd (cull_calls Map.empty pool n)) (UUID a)
        - rr_get (snd (cull_calls Map.empty pool n)) (UUID b)\<bar> \<le> 1"
      by simp
  }
  {
    fix rr :: rrMap and cnt :: int and label :: string
    assume range: "\<forall>hi \<in> set pool. 0 \<le> rr_get rr (UUID hi) \<and> rr_get rr (UUID hi) < MaxInt32"
      and cnt: "0 < cnt" "cnt \<le> int (length pool)"
    define f where "f = (\<lambda>hi :: HostInfo. rr_get rr (UUID hi))"
    define out where "out = take (nat cnt) (sort_key f pool)"
    have "roundRobinCull rr (map Some pool) cnt label
        = Returns (out, snd (findNextMinimum rr cnt (map Some pool) []),
            foldl (\<lambda>m hi. rr_incr m (UUID hi)) rr out)"
      using roundRobinCull_sorted [of "map Some pool" rr cnt label] range cnt
      by (simp add: out_def f_def)
    moreover have "take (length (filter (\<lambda>hi. f hi = m) pool)) out
        = take (nat cnt) (filter (\<lambda>hi. f hi = m) pool)"
      if "\<forall>hi \<in> set pool. m \<le> f hi" for m
    proof -
      from that have "sort_key f pool
          = filter (\<lambda>hi. f hi = m) pool @ sort_key f (filter (\<lambda>hi. f hi \<noteq> m) pool)"
        by (rule sort_key_min_first)
      then show ?thesis
        unfolding out_def by (simp add: min_def)
    qed
    ultimately show "\<exists>out inp' rr'.
        roundRobinCull rr (map Some pool) cnt label = Returns (out, inp', rr')
        \<and> out = take (nat cnt) (sort_key (\<lambda>hi. rr_get rr (UUID hi)) pool)
        \<and> (\<forall>m. (\<forall>hi \<in> set pool. m \<le> rr_get rr (UUID hi))
              \<longrightarrow> take (length (filter (\<lambda>hi. rr_get rr (UUID hi) = m) pool)) out
                  = take (nat cnt) (filter (\<lambda>hi. rr_get rr (UUID hi) = m) pool))"
      unfolding f_def out_def by blast
  }
qed


theorem cull_fairness_witness:
  "distinct (map UUID pool3)
   \<and> fst (cull_calls Map.empty pool3 3)
       = [[host ''u1'' ''h1:100''], [host ''u2'' ''h2:200''], [host ''u3'' ''h3:300'']]
   \<and> \<bar>rr_get (snd (cull_calls Map.empty pool3 2)) ''u1''
        - rr_get (snd (cull_calls Map.empty pool3 2)) ''u3''\<bar> \<le> 1
   \<and> (\<exists>inp' rr'. roundRobinCull (Map.empty(''u1'' \<mapsto> 1)) (map Some pool3) 2 ''n''
        = Returns ([host ''u2'' ''h2:200'', host ''u3'' ''h3:300''], inp', rr'))"
proof -
  have d: "distinct (map UUID pool3)"
    by (simp add: pool3_def host_def)
  note t = cull_fairness [OF d]
  have l: "length pool3 = 3"
    by (simp add: pool3_def)
  have m: "map (\<lambda>hi. [hi]) pool3
      = [[host ''u1'' ''h1:100''], [host ''u2'' ''h2:200''], [host ''u3'' ''h3:300'']]"
    by (simp add: pool3_def)
  have a: "fst (cull_calls Map.empty pool3 3)
      = [[host ''u1'' ''h1:100''], [host ''u2'' ''h2:200''], [host ''u3'' ''h3:300'']]"
    using t [THEN conjunct1] unfolding l m .
  have "\<bar>rr_get (snd (cull_calls Map.empty pool3 2)) (UUID (host ''u1'' ''h1:100''))
        - rr_get (snd (cull_calls Map.empty pool3 2)) (UUID (host ''u3'' ''h3:300''))\<bar> \<le> 1"
    by (rule t [THEN conjunct2, THEN conjunct1, rule_format]) (simp_all add: pool3_def)
  moreover have "UUID (host ''u1'' ''h1:100'') = ''u1''" "UUID (host ''u3'' ''h3:300'') = ''u3''"
    by (simp_all add: host_def)
  ultimately have b: "\<bar>rr_get (snd (cull_calls Map.empty pool3 2)) ''u1''
        - rr_get (snd (cull_calls Map.empty pool3 2)) ''u3''\<bar> \<le> 1"
    by simp
  have c: "\<exists>inp' rr'. roundRobinCull (Map.empty(''u1'' \<mapsto> 1)) (map Some pool3) 2 ''n''
        = Returns ([host ''u2'' ''h2:200'', host ''u3'' ''h3:300''], inp', rr')"
    by (simp add: roundRobinCull_def findNextMinimum.simps [of _ _ "_ # _"] Let_def rr_get_def
        rr_incr_def int64_incr_def MaxInt32_def MaxInt64_def host_def pool3_def)
  from d a b c show ?thesis by blast
qed

section \<open>The eligibility filter: properties\<close>

lemma keepEligible_filter:
  "keepEligible p hosts = Returns result
    \<Longrightarrow> result = filter (\<lambda>h. doesStoreMeetConstraints p h = Returns True) hosts"
proof (induction hosts arbitrary: result)
  case Nil
  then show ?case by simp
next
  case (Cons h hosts)
  then show ?case
    by (auto split: outcome.splits if_splits)
qed

lemma findEligibleStoreHosts_filter:
  assumes "findEligibleStoreHosts p = (tr, Returns (storeHosts, None))"
  shows "\<exists>hosts. rpm_GetHosts (ctx p) (StoreServiceName p) = Inr hosts
    \<and> storeHosts = filter (\<lambda>h. doesStoreMeetConstraints p h = Returns True) hosts
    \<and> storeHosts \<noteq> [] \<and> tr = [CallGetHosts (StoreServiceName p)]"
proof (cases "rpm_GetHosts (ctx p) (StoreServiceName p)")
  case (Inl e)
  with assms show ?thesis
    by (simp add: findEligibleStoreHosts_def)
next
  case (Inr hosts)
  with assms obtain result where "keepEligible p hosts = Returns result"
    by (cases "keepEligible p hosts") (auto simp: findEligibleStoreHosts_def andThen_def)
  with assms Inr show ?thesis
    by (auto simp: findEligibleStoreHosts_def andThen_def split: if_splits dest: keepEligible_filter)
qed

text \<open>
  Claim C7. For a host \<open>h\<close>, \<^verbatim>\<open>doesStoreMeetConstraints\<close> returns true exactly when the
  configuration lookup fails, or the configuration is enabled and the free-space lookup
  fails or reports more than the configured minimum. So a host without a configuration
  entry is eligible whatever the metrics store says, and a host whose configuration is
  found and whose reported free space is at most the configured minimum gets false and
  is in no result of \<^verbatim>\<open>findEligibleStoreHosts\<close>.
\<close>

theorem doesStoreMeetConstraints_exact:
  "(doesStoreMeetConstraints p (Some h) = Returns True \<longleftrightarrow>
      (\<exists>e. cfgMgr_Get (ctx p) (StoreServiceName p) ''*'' (Sku h) (Name h) = Inl e)
      \<or> (\<exists>cfg. cfgMgr_Get (ctx p) (StoreServiceName p) ''*'' (Sku h) (Name h)
                  = Inr (IsStorePlacementConfig cfg)
            \<and> AdminStatus cfg = ''enabled''
            \<and> ((\<exists>e. loadMetrics_Get (ctx p) (UUID h) = Inl e)
                \<or> (\<exists>v. loadMetrics_Get (ctx p) (UUID h) = Inr v \<and> MinFreeDiskSpaceBytes cfg < v))))
   \<and> ((\<exists>e. cfgMgr_Get (ctx p) (StoreServiceName p) ''*'' (Sku h) (Name h) = Inl e)
        \<longrightarrow> doesStoreMeetConstraints p (Some h) = Returns True)
   \<and> (\<forall>cfg v. cfgMgr_Get (ctx p) (StoreServiceName p) ''*'' (Sku h) (Name h)
                  = Inr (IsStorePlacementConfig cfg)
          \<and> loadMetrics_Get (ctx p) (UUID h) = Inr v \<and> v \<le> MinFreeDiskSpaceBytes cfg
        \<longrightarrow> doesStoreMeetConstraints p (Some h) = Returns False
          \<and> (\<forall>tr storeHosts. findEligibleStoreHosts p = (tr, Returns (storeHosts, None))
                \<longrightarrow> Some h \<notin> set storeHosts))"
proof (intro conjI allI impI)
  show "doesStoreMeetConstraints p (Some h) = Returns True \<longleftrightarrow>
      (\<exists>e. cfgMgr_Get (ctx p) (StoreServiceName p) ''*'' (Sku h) (Name h) = Inl e)
      \<or> (\<exists>cfg. cfgMgr_Get (ctx p) (StoreServiceName p) ''*'' (Sku h) (Name h)
                  = Inr (IsStorePlacementConfig cfg)
            \<and> AdminStatus cfg = ''enabled''
            \<and> ((\<exists>e. loadMetrics_Get (ctx p) (UUID h) = Inl e)
                \<or> (\<exists>v. loadMetrics_Get (ctx p) (UUID h) = Inr v \<and> MinFreeDiskSpaceBytes cfg < v)))"
    by (auto simp: doesStoreMeetConstraints_def split: sum.splits cfgObj.splits)
next
  assume "\<exists>e. cfgMgr_Get (ctx p) (StoreServiceName p) ''*'' (Sku h) (Name h) = Inl e"
  then show "doesStoreMeetConstraints p (Some h) = Returns True"
    by (auto simp: doesStoreMeetConstraints_def)
next
  fix cfg v
  assume a: "cfgMgr_Get (ctx p) (StoreServiceName p) ''*'' (Sku h) (Name h)
        = Inr (IsStorePlacementConfig cfg)
      \<and> loadMetrics_Get (ctx p) (UUID h) = Inr v \<and> v \<le> MinFreeDiskSpaceBytes cfg"
  then show no: "doesStoreMeetConstraints p (Some h) = Returns False"
    by (simp add: doesStoreMeetConstraints_def)
  fix tr storeHosts
  assume "findEligibleStoreHosts p = (tr, Returns (storeHosts, None))"
  from findEligibleStoreHosts_filter [OF this] no show "Some h \<notin> set storeHosts"
    by auto
qed


lemmas example_defs =
  examplePlacement_def exampleContext_def exampleConfig_def pool3_def host_def noResources_def
  emptyAnswer_def firstResources_def

theorem doesStoreMeetConstraints_exact_witness:
  "cfgMgr_Get (ctx examplePlacement) (StoreServiceName examplePlacement) ''*''
      (Sku (host ''u2'' ''h2:200'')) (Name (host ''u2'' ''h2:200''))
     = Inl (CollaboratorError ''no config'')
   \<and> doesStoreMeetConstraints examplePlacement (Some (host ''u2'' ''h2:200'')) = Returns True
   \<and> cfgMgr_Get (ctx examplePlacement) (StoreServiceName examplePlacement) ''*''
      (Sku (host ''u3'' ''h3:300'')) (Name (host ''u3'' ''h3:300''))
     = Inr (IsStorePlacementConfig \<lparr>AdminStatus = ''enabled'', MinFreeDiskSpaceBytes = 100\<rparr>)
   \<and> loadMetrics_Get (ctx examplePlacement) (UUID (host ''u3'' ''h3:300'')) = Inr 50
   \<and> doesStoreMeetConstraints examplePlacement (Some (host ''u3'' ''h3:300'')) = Returns False
   \<and> doesStoreMeetConstraints examplePlacement (Some (host ''u1'' ''h1:100'')) = Returns True
   \<and> findEligibleStoreHosts examplePlacement
     = ([CallGetHosts ''store''],
        Returns ([Some (host ''u1'' ''h1:100''), Some (host ''u2'' ''h2:200'')], None))"
proof -
  have c2: "cfgMgr_Get (ctx examplePlacement) (StoreServiceName examplePlacement) ''*''
      (Sku (host ''u2'' ''h2:200'')) (Name (host ''u2'' ''h2:200''))
     = Inl (CollaboratorError ''no config'')"
    by (simp add: example_defs)
  have c3: "cfgMgr_Get (ctx examplePlacement) (StoreServiceName examplePlacement) ''*''
      (Sku (host ''u3'' ''h3:300'')) (Name (host ''u3'' ''h3:300''))
     = Inr (IsStorePlacementConfig \<lparr>AdminStatus = ''enabled'', MinFreeDiskSpaceBytes = 100\<rparr>)"
    by (simp add: example_defs)
  have m3: "loadMetrics_Get (ctx examplePlacement) (UUID (host ''u3'' ''h3:300'')) = Inr 50"
    by (simp add: example_defs)
  have e2: "doesStoreMeetConstraints examplePlacement (Some (host ''u2'' ''h2:200'')) = Returns True"
    using doesStoreMeetConstraints_exact [of examplePlacement "host ''u2'' ''h2:200''"] c2
    by blast
  have e3: "doesStoreMeetConstraints examplePlacement (Some (host ''u3'' ''h3:300'')) = Returns False"
    using doesStoreMeetConstraints_exact [of examplePlacement "host ''u3'' ''h3:300''"] c3 m3
    by force
  have e1: "doesStoreMeetConstraints examplePlacement (Some (host ''u1'' ''h1:100'')) = Returns True"
    by (simp add: doesStoreMeetConstraints_def example_defs)
  have "findEligibleStoreHosts examplePlacement
     = ([CallGetHosts ''store''],
        Returns ([Some (host ''u1'' ''h1:100''), Some (host ''u2'' ''h2:200'')], None))"
    by (simp add: findEligibleStoreHosts_def andThen_def doesStoreMeetConstraints_def example_defs)
  with c2 c3 m3 e1 e2 e3 show ?thesis by blast
qed

section \<open>The placement service: properties\<close>

lemma fst_andThen:
  "fst (andThen m f) = fst m @ (case snd m of Returns a \<Rightarrow> fst (f a) | Panics msg \<Rightarrow> [] | Exits \<Rightarrow> [])"
  by (cases m) (simp add: andThen_def split: outcome.splits)

lemma snd_andThen:
  "snd (andThen m f)
    = (case snd m of Returns a \<Rightarrow> snd (f a) | Panics msg \<Rightarrow> Panics msg | Exits \<Rightarrow> Exits)"
  by (cases m) (simp add: andThen_def split: outcome.splits)

lemma andThen_Returns: "andThen (tr, Returns a) f = (tr @ fst (f a), snd (f a))"
  by (simp add: andThen_def)

lemma andThen_Panics: "andThen (tr, Panics msg) f = (tr, Panics msg)"
  by (simp add: andThen_def)

lemma andThen_Exits: "andThen (tr, Exits) f = (tr, Exits)"
  by (simp add: andThen_def)

lemma fst_findEligibleStoreHosts:
  "fst (findEligibleStoreHosts p) = [CallGetHosts (StoreServiceName p)]"
  by (simp add: findEligibleStoreHosts_def fst_andThen split: sum.splits outcome.splits)

lemma distanceQueries_resolveResources:
  "distanceQueries (fst (resolveResources p service hostPortMap resources hosts)) = []"
  by (induction p service hostPortMap resources hosts rule: resolveResources.induct)
    (simp_all add: distanceQueries_def fst_andThen split: option.splits sum.splits)

lemma fst_cullStoreHosts: "fst (cullStoreHosts rr storeHosts cnt) = []"
  by (simp add: cullStoreHosts_def fst_andThen split: outcome.splits prod.splits)

text \<open>
  What \<^verbatim>\<open>pickHosts\<close> asks the topology service: nothing, or once, with the band it was
  given; once whenever it comes back with an error.
\<close>

lemma distanceQueries_pickHosts:
  "distanceQueries (fst (pickHosts p service poolHosts poolSpare sourceHosts cnt minDistance maxDistance)) = []
   \<or> (\<exists>poolResources sourceResources.
        toResources poolHosts = Returns poolResources
        \<and> toResources sourceHosts = Returns sourceResources
        \<and> distMap p \<noteq> None
        \<and> distanceQueries (fst (pickHosts p service poolHosts poolSpare sourceHosts cnt minDistance maxDistance))
          = [CallFindResources poolResources sourceResources ''nic'' cnt minDistance maxDistance])"
  by (auto simp: pickHosts_def fst_andThen distanceQueries_def
      distanceQueries_resolveResources [unfolded distanceQueries_def]
      split: option.splits outcome.splits sum.splits)

lemma pickHosts_error_queried:
  assumes "pickHosts p service poolHosts poolSpare sourceHosts cnt minDistance maxDistance
      = (tr, Returns (hosts, Some e))"
  shows "\<exists>poolResources sourceResources.
        toResources poolHosts = Returns poolResources
        \<and> toResources sourceHosts = Returns sourceResources
        \<and> distMap p \<noteq> None
        \<and> distanceQueries tr
          = [CallFindResources poolResources sourceResources ''nic'' cnt minDistance maxDistance]"
proof -
  have "distanceQueries tr \<noteq> []"
    using assms
    by (auto simp: pickHosts_def andThen_def distanceQueries_def
        split: option.splits outcome.splits sum.splits if_splits prod.splits)
  with distanceQueries_pickHosts [of p service poolHosts poolSpare sourceHosts cnt minDistance maxDistance] assms
  show ?thesis by simp
qed

lemma PickStoreHosts_eligible:
  assumes "findEligibleStoreHosts p = (tr0, Returns (storeHosts, None))"
    and "\<not> int (length storeHosts) < cnt"
  shows "PickStoreHosts p rr cnt =
    andThen
      (tr0 @ fst (pickHosts p (StoreServiceName p) storeHosts (eligibleSpare p storeHosts) [] cnt
                    (fst (primaryBand p)) (snd (primaryBand p))),
       snd (pickHosts p (StoreServiceName p) storeHosts (eligibleSpare p storeHosts) [] cnt
              (fst (primaryBand p)) (snd (primaryBand p))))
      (\<lambda>(hosts, e).
         if e = None then ([], Returns ((hosts, None), rr))
         else if fallbackWidens p
         then andThen
                (pickHosts p (StoreServiceName p) storeHosts (eligibleSpare p storeHosts) [] cnt
                   (fst (fallbackBand p)) (snd (fallbackBand p)))
                (\<lambda>(hosts, e).
                   if e = None then ([], Returns ((hosts, None), rr))
                   else cullStoreHosts rr storeHosts cnt)
         else cullStoreHosts rr storeHosts cnt)"
  using assms
  by (simp add: PickStoreHosts_def andThen_def Let_def primaryBand_def fallbackBand_def
      fallbackWidens_def split: prod.splits outcome.splits)

lemma PickStoreHosts_too_few:
  assumes "findEligibleStoreHosts p = (tr0, Returns (storeHosts, None))"
    and "int (length storeHosts) < cnt"
  shows "PickStoreHosts p rr cnt = (tr0, Returns (([], Some errNoHosts), rr))"
  using assms by (simp add: PickStoreHosts_def andThen_def)

lemma PickStoreHosts_not_eligible:
  "findEligibleStoreHosts p = (tr0, Returns (storeHosts, Some e))
    \<Longrightarrow> PickStoreHosts p rr cnt = (tr0, Returns (([], Some errNoStoreHosts), rr))"
  "findEligibleStoreHosts p = (tr0, Panics msg) \<Longrightarrow> PickStoreHosts p rr cnt = (tr0, Panics msg)"
  "findEligibleStoreHosts p = (tr0, Exits) \<Longrightarrow> PickStoreHosts p rr cnt = (tr0, Exits)"
  by (simp_all add: PickStoreHosts_def andThen_def)

text \<open>
  Claim C9, as amended. With no distance map, \<^verbatim>\<open>pickHosts\<close> is the slice expression
  \<^verbatim>\<open>poolHosts[:count]\<close> and nothing else, whatever the pool, the source hosts, the service and
  the band: it records no call to the topology service or the registry and reads no
  address (a nil host or an address that is not host:port does not make it panic). For
  \<open>count\<close> from 0 to the length of the pool the result is the first \<open>count\<close> hosts of the
  pool as they are. Outside this range the slice expression panics (a negative \<open>count\<close>,
  or one beyond the capacity) or returns the pool followed by spare slots of its backing
  array (beyond the length, within the capacity). In \<^verbatim>\<open>PickStoreHosts\<close>, where \<open>count\<close> has
  been checked against the eligible hosts, a \<open>count\<close> of at least 0 gives the first
  \<open>count\<close> eligible hosts, with the counter table untouched.
\<close>

theorem pickHosts_without_topology:
  assumes "distMap p = None"
  shows "pickHosts p service poolHosts poolSpare sourceHosts cnt minDistance maxDistance
      = ([], if 0 \<le> cnt \<and> cnt \<le> int (length poolHosts + length poolSpare)
             then Returns (take (nat cnt) (poolHosts @ poolSpare), None)
             else Panics ''slice bounds out of range'')
    \<and> (0 \<le> cnt \<longrightarrow> cnt \<le> int (length poolHosts)
        \<longrightarrow> pickHosts p service poolHosts poolSpare sourceHosts cnt minDistance maxDistance
            = ([], Returns (take (nat cnt) poolHosts, None)))
    \<and> (\<forall>tr storeHosts.
          findEligibleStoreHosts p = (tr, Returns (storeHosts, None))
          \<longrightarrow> 0 \<le> cnt \<longrightarrow> cnt \<le> int (length storeHosts)
          \<longrightarrow> PickStoreHosts p rr cnt
              = ([CallGetHosts (StoreServiceName p)],
                 Returns ((take (nat cnt) storeHosts, None), rr)))"
proof (intro conjI allI impI)
  show "pickHosts p service poolHosts poolSpare sourceHosts cnt minDistance maxDistance
      = ([], if 0 \<le> cnt \<and> cnt \<le> int (length poolHosts + length poolSpare)
             then Returns (take (nat cnt) (poolHosts @ poolSpare), None)
             else Panics ''slice bounds out of range'')"
    using assms by (simp add: pickHosts_def)
  show a: "pickHosts p service poolHosts poolSpare sourceHosts cnt minDistance maxDistance
      = ([], Returns (take (nat cnt) poolHosts, None))"
    if "0 \<le> cnt" "cnt \<le> int (length poolHosts)"
    for service poolHosts poolSpare sourceHosts minDistance maxDistance
    using assms that by (simp add: pickHosts_def)
  fix tr storeHosts
  assume e: "findEligibleStoreHosts p = (tr, Returns (storeHosts, None))"
    and c: "0 \<le> cnt" "cnt \<le> int (length storeHosts)"
  from e have tr: "tr = [CallGetHosts (StoreServiceName p)]"
    using fst_findEligibleStoreHosts [of p] by simp
  from c have "\<not> int (length storeHosts) < cnt" by simp
  from PickStoreHosts_eligible [OF e this] c tr
  show "PickStoreHosts p rr cnt
      = ([CallGetHosts (StoreServiceName p)], Returns ((take (nat cnt) storeHosts, None), rr))"
    by (simp add: a andThen_def)
qed

theorem pickHosts_without_topology_witness:
  "distMap (examplePlacement\<lparr>distMap := None\<rparr>) = None
   \<and> pickHosts (examplePlacement\<lparr>distMap := None\<rparr>) ''store''
        [Some (host ''u1'' ''not an address''), None, Some (host ''u3'' ''h3:300'')] [] [None] 2 7 3
     = ([], Returns ([Some (host ''u1'' ''not an address''), None], None))
   \<and> findEligibleStoreHosts (examplePlacement\<lparr>distMap := None\<rparr>)
     = ([CallGetHosts ''store''],
        Returns ([Some (host ''u1'' ''h1:100''), Some (host ''u2'' ''h2:200'')], None))
   \<and> PickStoreHosts (examplePlacement\<lparr>distMap := None\<rparr>) Map.empty 1
     = ([CallGetHosts ''store''], Returns (([Some (host ''u1'' ''h1:100'')], None), Map.empty))"
proof -
  have n: "distMap (examplePlacement\<lparr>distMap := None\<rparr>) = None"
    by simp
  have e: "findEligibleStoreHosts (examplePlacement\<lparr>distMap := None\<rparr>)
     = ([CallGetHosts ''store''],
        Returns ([Some (host ''u1'' ''h1:100''), Some (host ''u2'' ''h2:200'')], None))"
    by (simp add: findEligibleStoreHosts_def andThen_def doesStoreMeetConstraints_def example_defs)
  note t = pickHosts_without_topology [OF n]
  have a: "pickHosts (examplePlacement\<lparr>distMap := None\<rparr>) ''store''
        [Some (host ''u1'' ''not an address''), None, Some (host ''u3'' ''h3:300'')] [] [None] 2 7 3
     = ([], Returns ([Some (host ''u1'' ''not an address''), None], None))"
    by (simp add: t [THEN conjunct1])
  have b: "PickStoreHosts (examplePlacement\<lparr>distMap := None\<rparr>) Map.empty 1
     = ([CallGetHosts ''store''], Returns (([Some (host ''u1'' ''h1:100'')], None), Map.empty))"
    using t [THEN conjunct2, THEN conjunct2, rule_format, OF e, where cnt = 1 and rr = Map.empty]
    by (simp add: example_defs)
  from n e a b show ?thesis by blast
qed

text \<open>
  Claim C9 as stated, for every pool and every \<open>count\<close>, fails beyond the length of the
  pool. For a pool of two hosts whose backing array has one more slot, as
  \<^verbatim>\<open>findEligibleStoreHosts\<close> leaves it when it filters out one host of three, a \<open>count\<close> of
  3 returns three entries, the last of them the nil pointer of the spare slot: not hosts
  of the pool. With no spare slot the same call panics, and so does a negative \<open>count\<close>.
\<close>

theorem pickHosts_beyond_pool_length:
  "distMap (examplePlacement\<lparr>distMap := None\<rparr>) = None
   \<and> pickHosts (examplePlacement\<lparr>distMap := None\<rparr>) ''store''
        [Some (host ''u1'' ''h1:100''), Some (host ''u2'' ''h2:200'')] [None] [] 3 1 5
     = ([], Returns ([Some (host ''u1'' ''h1:100''), Some (host ''u2'' ''h2:200''), None], None))
   \<and> [Some (host ''u1'' ''h1:100''), Some (host ''u2'' ''h2:200''), None]
     \<noteq> take 3 [Some (host ''u1'' ''h1:100''), Some (host ''u2'' ''h2:200'')]
   \<and> pickHosts (examplePlacement\<lparr>distMap := None\<rparr>) ''store''
        [Some (host ''u1'' ''h1:100''), Some (host ''u2'' ''h2:200'')] [] [] 3 1 5
     = ([], Panics ''slice bounds out of range'')
   \<and> pickHosts (examplePlacement\<lparr>distMap := None\<rparr>) ''store''
        [Some (host ''u1'' ''h1:100''), Some (host ''u2'' ''h2:200'')] [None] [] (- 1) 1 5
     = ([], Panics ''slice bounds out of range'')"
  by (simp add: pickHosts_def)

lemma pickHosts_FindResources_band:
  assumes "CallFindResources pool src cls n lo hi
      \<in> set (fst (pickHosts p service poolHosts poolSpare sourceHosts cnt minDistance maxDistance))"
  shows "lo = minDistance \<and> hi = maxDistance"
proof -
  from assms have "CallFindResources pool src cls n lo hi
      \<in> set (distanceQueries (fst (pickHosts p service poolHosts poolSpare sourceHosts cnt minDistance maxDistance)))"
    by (simp add: distanceQueries_def)
  with distanceQueries_pickHosts [of p service poolHosts poolSpare sourceHosts cnt minDistance maxDistance]
  show ?thesis by auto
qed

lemma PickStoreHosts_FindResources_band:
  assumes "CallFindResources pool src cls n lo hi \<in> set (fst (PickStoreHosts p rr cnt))"
  shows "(lo, hi) = primaryBand p \<or> (lo, hi) = fallbackBand p"
proof (cases "findEligibleStoreHosts p")
  case (Pair tr0 r)
  have tr0: "tr0 = [CallGetHosts (StoreServiceName p)]"
    using fst_findEligibleStoreHosts [of p] Pair by simp
  show ?thesis
  proof (cases r)
    case (Returns a)
    obtain storeHosts err where a: "a = (storeHosts, err)" by (cases a)
    show ?thesis
    proof (cases "err = None \<and> \<not> int (length storeHosts) < cnt")
      case True
      then have e: "findEligibleStoreHosts p = (tr0, Returns (storeHosts, None))"
        and c: "\<not> int (length storeHosts) < cnt"
        using Pair Returns a by simp_all
      from assms have "CallFindResources pool src cls n lo hi
          \<in> set (fst (pickHosts p (StoreServiceName p) storeHosts (eligibleSpare p storeHosts) [] cnt
                (fst (primaryBand p)) (snd (primaryBand p))))
        \<or> CallFindResources pool src cls n lo hi
          \<in> set (fst (pickHosts p (StoreServiceName p) storeHosts (eligibleSpare p storeHosts) [] cnt
                (fst (fallbackBand p)) (snd (fallbackBand p))))"
        unfolding PickStoreHosts_eligible [OF e c]
        by (auto simp: fst_andThen tr0 fst_cullStoreHosts split: outcome.splits if_splits prod.splits)
      then show ?thesis
        by (auto dest!: pickHosts_FindResources_band simp: prod_eq_iff)
    next
      case False
      then have "fst (PickStoreHosts p rr cnt) = tr0"
        using Pair Returns a
        by (cases err) (auto simp: PickStoreHosts_def andThen_def)
      with assms tr0 show ?thesis by simp
    qed
  next
    case (Panics msg)
    with Pair assms tr0 show ?thesis
      by (simp add: PickStoreHosts_not_eligible)
  next
    case Exits
    with Pair assms tr0 show ?thesis
      by (simp add: PickStoreHosts_not_eligible)
  qed
qed

lemma fst_normalizeBand: "fst (normalizeBand p (mn, mx)) = (if mn \<le> 0 then 1 else mn)"
  by (simp add: normalizeBand_def ZeroDistance_def Let_def)

lemma snd_normalizeBand:
  "snd (normalizeBand p (mn, mx))
    = (if mx \<le> fst (normalizeBand p (mn, mx)) then InfiniteDistance p else mx)"
  by (simp add: normalizeBand_def ZeroDistance_def Let_def)

text \<open>
  Claim C8. The normalization of a store-to-store band: the lower bound is never 0 (a
  configured 0, the only \<^verbatim>\<open>uint16\<close> at or below \<^verbatim>\<open>ZeroDistance\<close>, becomes 1, anything else
  stays), and the upper bound is \<^verbatim>\<open>InfiniteDistance\<close> whenever the configured one is at most
  the lower bound so obtained. Both the primary and the fallback band go through it, and
  every query that \<^verbatim>\<open>PickStoreHosts\<close> sends to the topology service carries one of these
  two normalized bands, so never a lower bound of 0.
\<close>

theorem normalizeBand_no_zero:
  "fst (normalizeBand p (mn, mx)) \<noteq> 0
   \<and> fst (normalizeBand p (mn, mx)) = (if mn \<le> 0 then 1 else mn)
   \<and> snd (normalizeBand p (mn, mx))
       = (if mx \<le> fst (normalizeBand p (mn, mx)) then InfiniteDistance p else mx)
   \<and> primaryBand p
       = normalizeBand p (MinStoreToStoreDistance (appConfig (ctx p)),
                          MaxStoreToStoreDistance (appConfig (ctx p)))
   \<and> fallbackBand p
       = normalizeBand p (MinStoreToStoreFallbackDistance (appConfig (ctx p)),
                          MaxStoreToStoreFallbackDistance (appConfig (ctx p)))
   \<and> (\<forall>pool src cls n lo hi.
         CallFindResources pool src cls n lo hi \<in> set (fst (PickStoreHosts p rr cnt))
         \<longrightarrow> lo \<noteq> 0 \<and> ((lo, hi) = primaryBand p \<or> (lo, hi) = fallbackBand p))"
proof -
  have z: "fst (normalizeBand p (a, b)) \<noteq> 0" for a b
    by (simp add: fst_normalizeBand)
  have "lo \<noteq> 0 \<and> ((lo, hi) = primaryBand p \<or> (lo, hi) = fallbackBand p)"
    if "CallFindResources pool src cls n lo hi \<in> set (fst (PickStoreHosts p rr cnt))"
    for pool src cls n lo hi
  proof -
    from that have b: "(lo, hi) = primaryBand p \<or> (lo, hi) = fallbackBand p"
      by (rule PickStoreHosts_FindResources_band)
    then have "lo = fst (primaryBand p) \<or> lo = fst (fallbackBand p)"
      by (metis fst_conv)
    then have "lo \<noteq> 0"
      using z by (auto simp: primaryBand_def fallbackBand_def)
    with b show ?thesis by simp
  qed
  then show ?thesis
    using z [of mn mx] fst_normalizeBand [of p mn mx] snd_normalizeBand [of p mn mx]
    by (simp only: primaryBand_def fallbackBand_def) blast
qed

theorem normalizeBand_no_zero_witness:
  "CallFindResources [''h1'', ''h2''] [] ''nic'' 2 1 65535
     \<in> set (fst (PickStoreHosts (withBands 0 0 0 0 examplePlacement) Map.empty 2))
   \<and> fst (PickStoreHosts (withBands 0 0 0 0 examplePlacement) Map.empty 2)
     = [CallGetHosts ''store'',
        CallFindResources [''h1'', ''h2''] [] ''nic'' 2 1 65535,
        CallFindResources [''h1'', ''h2''] [] ''nic'' 2 1 65535]
   \<and> primaryBand (withBands 0 0 0 0 examplePlacement) = (1, 65535)
   \<and> fallbackBand (withBands 0 0 0 0 examplePlacement) = (1, 65535)
   \<and> normalizeBand examplePlacement (7, 3) = (7, 65535)"
proof -
  have tr: "fst (PickStoreHosts (withBands 0 0 0 0 examplePlacement) Map.empty 2)
     = [CallGetHosts ''store'',
        CallFindResources [''h1'', ''h2''] [] ''nic'' 2 1 65535,
        CallFindResources [''h1'', ''h2''] [] ''nic'' 2 1 65535]"
    by code_simp
  then have ev: "CallFindResources [''h1'', ''h2''] [] ''nic'' 2 1 65535
      \<in> set (fst (PickStoreHosts (withBands 0 0 0 0 examplePlacement) Map.empty 2))"
    by simp
  note t = normalizeBand_no_zero [of "withBands 0 0 0 0 examplePlacement" 0 0 Map.empty 2]
  from t ev have "(1 :: 16 word, 65535 :: 16 word) = primaryBand (withBands 0 0 0 0 examplePlacement)
      \<or> (1, 65535) = fallbackBand (withBands 0 0 0 0 examplePlacement)"
    by blast
  moreover have "primaryBand (withBands 0 0 0 0 examplePlacement) = (1, 65535)"
    "fallbackBand (withBands 0 0 0 0 examplePlacement) = (1, 65535)"
    by (simp_all add: primaryBand_def fallbackBand_def normalizeBand_def ZeroDistance_def
        withBands_def example_defs)
  moreover have "normalizeBand examplePlacement (7, 3) = (7, 65535)"
    using normalizeBand_no_zero [of examplePlacement 7 3 Map.empty 0]
    by (simp add: prod_eq_iff example_defs)
  ultimately show ?thesis using tr ev by blast
qed

lemma roundRobinCull_one:
  "\<exists>culled hosts' rr'. roundRobinCull rr hosts 1 label = Returns (culled, hosts', rr')"
  by (simp add: roundRobinCull_def Let_def)

lemma pickHostsWithFallback_failed:
  "rpm_GetHosts (ctx p) service = Inl err
    \<Longrightarrow> pickHostsWithFallback p rr service minDistance maxDistance minFallback maxFallback storeHosts
      = ([CallGetHosts service], Returns ((Some emptyHostInfo, Some errNoHosts), rr))"
  by (simp add: pickHostsWithFallback_def)

lemma pickHostsWithFallback_culled:
  "rpm_GetHosts (ctx p) service = Inr hosts
    \<Longrightarrow> roundRobinCull rr hosts 1 service = Returns (culled, hosts', rr')
    \<Longrightarrow> pickHostsWithFallback p rr service minDistance maxDistance minFallback maxFallback storeHosts
      = ([CallGetHosts service],
         Returns (if length culled = 1 then ((Some (culled ! 0), None), rr')
                  else ((Some emptyHostInfo, Some errNoHosts), rr')))"
  by (simp add: pickHostsWithFallback_def andThen_def Let_def)

text \<open>
  Claim C4. \<^verbatim>\<open>PickInputHost\<close> asks the registry for the live input hosts and culls one of
  them: when the registry fails, the call fails with \<^verbatim>\<open>errNoInputHosts\<close>; otherwise it
  returns the one host the cull produced, with the counter table the cull left, or fails
  with \<^verbatim>\<open>errNoInputHosts\<close> when the cull produced none. Two placements with the same
  registry and service name give the same result for any \<open>storeHosts\<close>: the configured
  bands, the distance map and the argument play no part. \<^verbatim>\<open>PickOutputHost\<close> is the same
  with the output service and \<^verbatim>\<open>errNoOutputHosts\<close>.
\<close>

theorem PickInputHost_is_cull:
  "(\<forall>err. rpm_GetHosts (ctx p) (InputServiceName p) = Inl err
      \<longrightarrow> PickInputHost p rr storeHosts
          = ([CallGetHosts (InputServiceName p)],
             Returns ((Some emptyHostInfo, Some errNoInputHosts), rr)))
   \<and> (\<forall>hosts. rpm_GetHosts (ctx p) (InputServiceName p) = Inr hosts
      \<longrightarrow> (\<exists>culled hosts' rr'.
            roundRobinCull rr hosts 1 (InputServiceName p) = Returns (culled, hosts', rr')
            \<and> PickInputHost p rr storeHosts
              = ([CallGetHosts (InputServiceName p)],
                 Returns (if length culled = 1 then ((Some (culled ! 0), None), rr')
                          else ((Some emptyHostInfo, Some errNoInputHosts), rr')))))
   \<and> (\<forall>(p' :: DistancePlacement) storeHosts'.
        rpm_GetHosts (ctx p') = rpm_GetHosts (ctx p) \<and> InputServiceName p' = InputServiceName p
        \<longrightarrow> PickInputHost p' rr storeHosts' = PickInputHost p rr storeHosts)
   \<and> (\<forall>err. rpm_GetHosts (ctx p) (OutputServiceName p) = Inl err
      \<longrightarrow> PickOutputHost p rr storeHosts
          = ([CallGetHosts (OutputServiceName p)],
             Returns ((Some emptyHostInfo, Some errNoOutputHosts), rr)))
   \<and> (\<forall>hosts. rpm_GetHosts (ctx p) (OutputServiceName p) = Inr hosts
      \<longrightarrow> (\<exists>culled hosts' rr'.
            roundRobinCull rr hosts 1 (OutputServiceName p) = Returns (culled, hosts', rr')
            \<and> PickOutputHost p rr storeHosts
              = ([CallGetHosts (OutputServiceName p)],
                 Returns (if length culled = 1 then ((Some (culled ! 0), None), rr')
                          else ((Some emptyHostInfo, Some errNoOutputHosts), rr')))))
   \<and> (\<forall>(p' :: DistancePlacement) storeHosts'.
        rpm_GetHosts (ctx p') = rpm_GetHosts (ctx p) \<and> OutputServiceName p' = OutputServiceName p
        \<longrightarrow> PickOutputHost p' rr storeHosts' = PickOutputHost p rr storeHosts)"
proof (intro conjI allI impI)
  fix err
  assume "rpm_GetHosts (ctx p) (InputServiceName p) = Inl err"
  then show "PickInputHost p rr storeHosts
      = ([CallGetHosts (InputServiceName p)], Returns ((Some emptyHostInfo, Some errNoInputHosts), rr))"
    by (simp add: PickInputHost_def pickHostsWithFallback_failed andThen_def)
next
  fix hosts
  assume g: "rpm_GetHosts (ctx p) (InputServiceName p) = Inr hosts"
  from roundRobinCull_one obtain culled hosts' rr' where
    c: "roundRobinCull rr hosts 1 (InputServiceName p) = Returns (culled, hosts', rr')"
    by blast
  have "PickInputHost p rr storeHosts
      = ([CallGetHosts (InputServiceName p)],
         Returns (if length culled = 1 then ((Some (culled ! 0), None), rr')
                  else ((Some emptyHostInfo, Some errNoInputHosts), rr')))"
    by (simp add: PickInputHost_def pickHostsWithFallback_culled [OF g c] andThen_def)
  with c show "\<exists>culled hosts' rr'.
      roundRobinCull rr hosts 1 (InputServiceName p) = Returns (culled, hosts', rr')
      \<and> PickInputHost p rr storeHosts
        = ([CallGetHosts (InputServiceName p)],
           Returns (if length culled = 1 then ((Some (culled ! 0), None), rr')
                    else ((Some emptyHostInfo, Some errNoInputHosts), rr')))"
    by blast
next
  fix p' :: DistancePlacement and storeHosts' :: "HostInfo option list"
  assume "rpm_GetHosts (ctx p') = rpm_GetHosts (ctx p) \<and> InputServiceName p' = InputServiceName p"
  then have same: "rpm_GetHosts (ctx p') (InputServiceName p') = rpm_GetHosts (ctx p) (InputServiceName p)"
    and name: "InputServiceName p' = InputServiceName p"
    by simp_all
  show "PickInputHost p' rr storeHosts' = PickInputHost p rr storeHosts"
  proof (cases "rpm_GetHosts (ctx p) (InputServiceName p)")
    case (Inl err)
    with same show ?thesis
      by (simp add: PickInputHost_def pickHostsWithFallback_failed name)
  next
    case (Inr hosts)
    from roundRobinCull_one obtain culled hosts' rr' where
      c: "roundRobinCull rr hosts 1 (InputServiceName p) = Returns (culled, hosts', rr')"
      by blast
    from Inr same have g': "rpm_GetHosts (ctx p') (InputServiceName p) = Inr hosts"
      by (simp add: name)
    show ?thesis
      by (simp add: PickInputHost_def name pickHostsWithFallback_culled [OF Inr c]
          pickHostsWithFallback_culled [OF g' c])
  qed
next
  fix err
  assume "rpm_GetHosts (ctx p) (OutputServiceName p) = Inl err"
  then show "PickOutputHost p rr storeHosts
      = ([CallGetHosts (OutputServiceName p)], Returns ((Some emptyHostInfo, Some errNoOutputHosts), rr))"
    by (simp add: PickOutputHost_def pickHostsWithFallback_failed andThen_def)
next
  fix hosts
  assume g: "rpm_GetHosts (ctx p) (OutputServiceName p) = Inr hosts"
  from roundRobinCull_one obtain culled hosts' rr' where
    c: "roundRobinCull rr hosts 1 (OutputServiceName p) = Returns (culled, hosts', rr')"
    by blast
  have "PickOutputHost p rr storeHosts
      = ([CallGetHosts (OutputServiceName p)],
         Returns (if length culled = 1 then ((Some (culled ! 0), None), rr')
                  else ((Some emptyHostInfo, Some errNoOutputHosts), rr')))"
    by (simp add: PickOutputHost_def pickHostsWithFallback_culled [OF g c] andThen_def)
  with c show "\<exists>culled hosts' rr'.
      roundRobinCull rr hosts 1 (OutputServiceName p) = Returns (culled, hosts', rr')
      \<and> PickOutputHost p rr storeHosts
        = ([CallGetHosts (OutputServiceName p)],
           Returns (if length culled = 1 then ((Some (culled ! 0), None), rr')
                    else ((Some emptyHostInfo, Some errNoOutputHosts), rr')))"
    by blast
next
  fix p' :: DistancePlacement and storeHosts' :: "HostInfo option list"
  assume "rpm_GetHosts (ctx p') = rpm_GetHosts (ctx p) \<and> OutputServiceName p' = OutputServiceName p"
  then have same: "rpm_GetHosts (ctx p') (OutputServiceName p') = rpm_GetHosts (ctx p) (OutputServiceName p)"
    and name: "OutputServiceName p' = OutputServiceName p"
    by simp_all
  show "PickOutputHost p' rr storeHosts' = PickOutputHost p rr storeHosts"
  proof (cases "rpm_GetHosts (ctx p) (OutputServiceName p)")
    case (Inl err)
    with same show ?thesis
      by (simp add: PickOutputHost_def pickHostsWithFallback_failed name)
  next
    case (Inr hosts)
    from roundRobinCull_one obtain culled hosts' rr' where
      c: "roundRobinCull rr hosts 1 (OutputServiceName p) = Returns (culled, hosts', rr')"
      by blast
    from Inr same have g': "rpm_GetHosts (ctx p') (OutputServiceName p) = Inr hosts"
      by (simp add: name)
    show ?thesis
      by (simp add: PickOutputHost_def name pickHostsWithFallback_culled [OF Inr c]
          pickHostsWithFallback_culled [OF g' c])
  qed
qed

theorem PickInputHost_is_cull_witness:
  "rpm_GetHosts (ctx examplePlacement) (InputServiceName examplePlacement) = Inr (map Some pool3)
   \<and> roundRobinCull (Map.empty(''u1'' \<mapsto> 1)) (map Some pool3) 1 ''input''
     = Returns ([host ''u2'' ''h2:200''],
         [Some (host ''u1'' ''h1:100''), None, Some (host ''u3'' ''h3:300'')],
         Map.empty(''u1'' \<mapsto> 1, ''u2'' \<mapsto> 1))
   \<and> PickInputHost examplePlacement (Map.empty(''u1'' \<mapsto> 1)) []
     = ([CallGetHosts ''input''],
        Returns ((Some (host ''u2'' ''h2:200''), None), Map.empty(''u1'' \<mapsto> 1, ''u2'' \<mapsto> 1)))
   \<and> PickInputHost (withBands 3 9 1 2 (examplePlacement\<lparr>distMap := None\<rparr>))
        (Map.empty(''u1'' \<mapsto> 1)) [Some (host ''u3'' ''h3:300'')]
     = PickInputHost examplePlacement (Map.empty(''u1'' \<mapsto> 1)) []
   \<and> PickOutputHost (examplePlacement\<lparr>ctx := exampleContext
          \<lparr>rpm_GetHosts := \<lambda>service. Inl (CollaboratorError ''down'')\<rparr>\<rparr>) Map.empty []
     = ([CallGetHosts ''output''], Returns ((Some emptyHostInfo, Some errNoOutputHosts), Map.empty))"
proof -
  have g: "rpm_GetHosts (ctx examplePlacement) (InputServiceName examplePlacement)
      = Inr (map Some pool3)"
    by (simp add: example_defs)
  have c: "roundRobinCull (Map.empty(''u1'' \<mapsto> 1)) (map Some pool3) 1 ''input''
     = Returns ([host ''u2'' ''h2:200''],
         [Some (host ''u1'' ''h1:100''), None, Some (host ''u3'' ''h3:300'')],
         Map.empty(''u1'' \<mapsto> 1, ''u2'' \<mapsto> 1))"
    by (simp add: roundRobinCull_def findNextMinimum.simps [of _ _ "_ # _"] Let_def rr_get_def
        rr_incr_def int64_incr_def MaxInt32_def MaxInt64_def host_def pool3_def)
  have n: "InputServiceName examplePlacement = ''input''"
    by (simp add: example_defs)
  note t = PickInputHost_is_cull [of examplePlacement "Map.empty(''u1'' \<mapsto> 1)" "[]"]
  from t [THEN conjunct2, THEN conjunct1, rule_format, OF g] c
  have a: "PickInputHost examplePlacement (Map.empty(''u1'' \<mapsto> 1)) []
     = ([CallGetHosts ''input''],
        Returns ((Some (host ''u2'' ''h2:200''), None), Map.empty(''u1'' \<mapsto> 1, ''u2'' \<mapsto> 1)))"
    by (auto simp: n)
  have b: "PickInputHost (withBands 3 9 1 2 (examplePlacement\<lparr>distMap := None\<rparr>))
        (Map.empty(''u1'' \<mapsto> 1)) [Some (host ''u3'' ''h3:300'')]
     = PickInputHost examplePlacement (Map.empty(''u1'' \<mapsto> 1)) []"
    by (rule t [THEN conjunct2, THEN conjunct2, THEN conjunct1, rule_format])
      (simp add: withBands_def)
  have d: "PickOutputHost (examplePlacement\<lparr>ctx := exampleContext
          \<lparr>rpm_GetHosts := \<lambda>service. Inl (CollaboratorError ''down'')\<rparr>\<rparr>) Map.empty []
     = ([CallGetHosts ''output''], Returns ((Some emptyHostInfo, Some errNoOutputHosts), Map.empty))"
    by (simp add: PickOutputHost_def pickHostsWithFallback_def andThen_def example_defs)
  from g c a b d show ?thesis by blast
qed

lemma findEligibleStoreHosts_example:
  "findEligibleStoreHosts examplePlacement
     = ([CallGetHosts ''store''],
        Returns ([Some (host ''u1'' ''h1:100''), Some (host ''u2'' ''h2:200'')], None))"
  by (simp add: findEligibleStoreHosts_def andThen_def doesStoreMeetConstraints_def example_defs)

text \<open>
  Claim C2, at the example placement: two of the three registered store hosts are
  eligible and three are asked for. \<^verbatim>\<open>PickStoreHosts\<close> fails before any distance query, as
  the claim says, but with \<^verbatim>\<open>errNoHosts\<close>, the generic error, and not with
  \<^verbatim>\<open>errNoStoreHosts\<close>.
\<close>

theorem PickStoreHosts_too_few_generic_error:
  "findEligibleStoreHosts examplePlacement
     = ([CallGetHosts ''store''],
        Returns ([Some (host ''u1'' ''h1:100''), Some (host ''u2'' ''h2:200'')], None))
   \<and> PickStoreHosts examplePlacement Map.empty 3
     = ([CallGetHosts ''store''], Returns (([], Some errNoHosts), Map.empty))
   \<and> distanceQueries (fst (PickStoreHosts examplePlacement Map.empty 3)) = []
   \<and> errNoHosts \<noteq> errNoStoreHosts"
proof -
  have "PickStoreHosts examplePlacement Map.empty 3
     = ([CallGetHosts ''store''], Returns (([], Some errNoHosts), Map.empty))"
    by (rule PickStoreHosts_too_few [OF findEligibleStoreHosts_example]) simp
  then show ?thesis
    by (simp add: findEligibleStoreHosts_example distanceQueries_def)
qed

lemma pickHosts_error_ready:
  assumes "pickHosts p service poolHosts poolSpare sourceHosts cnt minDistance maxDistance
      = (tr, Returns (hosts, Some e))"
  shows "\<exists>FindResources poolResources sourceResources hostPortMap.
        distMap p = Some FindResources
        \<and> toResources poolHosts = Returns poolResources
        \<and> toResources sourceHosts = Returns sourceResources
        \<and> fillHostPortMap poolHosts Map.empty = Returns hostPortMap"
  using assms
  by (auto simp: pickHosts_def andThen_def
      split: option.splits outcome.splits if_splits)

lemma pickHosts_ready_queries:
  assumes "distMap p = Some FindResources"
    and "toResources poolHosts = Returns poolResources"
    and "toResources sourceHosts = Returns sourceResources"
    and "fillHostPortMap poolHosts Map.empty = Returns hostPortMap"
  shows "distanceQueries (fst (pickHosts p service poolHosts poolSpare sourceHosts cnt minDistance maxDistance))
      = [CallFindResources poolResources sourceResources ''nic'' cnt minDistance maxDistance]"
  using assms
  by (simp add: pickHosts_def andThen_def distanceQueries_def
      distanceQueries_resolveResources [unfolded distanceQueries_def]
      split: sum.splits)

lemma distanceQueries_append [simp]:
  "distanceQueries (xs @ ys) = distanceQueries xs @ distanceQueries ys"
  by (simp add: distanceQueries_def)

text \<open>
  Claim C3, as amended. Let the eligible hosts be enough for \<open>count\<close> and let the first
  \<^verbatim>\<open>pickHosts\<close>, with the normalized primary band, come back with an error. If the fallback
  band as configured reaches outside the normalized primary band (its minimum is below
  the primary minimum or its maximum above the primary maximum), \<^verbatim>\<open>PickStoreHosts\<close> makes
  exactly one more attempt, with the normalized fallback band: the trace holds two
  distance queries, the primary and the fallback one, and the call ends with the hosts of
  the second attempt or, if that fails too, with the cull. Otherwise, so in particular
  when the configured fallback band lies within the normalized primary band or equals
  it, there is no second attempt: the trace holds the one primary query and the result is
  that of the cull.
\<close>

theorem PickStoreHosts_retry:
  assumes e: "findEligibleStoreHosts p = (tr0, Returns (storeHosts, None))"
    and c: "cnt \<le> int (length storeHosts)"
    and f: "pickHosts p (StoreServiceName p) storeHosts (eligibleSpare p storeHosts) [] cnt
              (fst (primaryBand p)) (snd (primaryBand p)) = (tr1, Returns (hosts1, Some e1))"
  shows "(fallbackWidens p \<longleftrightarrow>
            MinStoreToStoreFallbackDistance (appConfig (ctx p)) < fst (primaryBand p)
            \<or> snd (primaryBand p) < MaxStoreToStoreFallbackDistance (appConfig (ctx p)))
    \<and> (fst (primaryBand p) \<le> MinStoreToStoreFallbackDistance (appConfig (ctx p))
          \<and> MaxStoreToStoreFallbackDistance (appConfig (ctx p)) \<le> snd (primaryBand p)
        \<longrightarrow> \<not> fallbackWidens p)
    \<and> (\<exists>poolResources. toResources storeHosts = Returns poolResources
        \<and> (if fallbackWidens p
            then distanceQueries (fst (PickStoreHosts p rr cnt))
                = [CallFindResources poolResources [] ''nic'' cnt
                     (fst (primaryBand p)) (snd (primaryBand p)),
                   CallFindResources poolResources [] ''nic'' cnt
                     (fst (fallbackBand p)) (snd (fallbackBand p))]
              \<and> PickStoreHosts p rr cnt
                = andThen (tr0 @ tr1, Returns ()) (\<lambda>_.
                    andThen
                      (pickHosts p (StoreServiceName p) storeHosts (eligibleSpare p storeHosts) [] cnt
                         (fst (fallbackBand p)) (snd (fallbackBand p)))
                      (\<lambda>(hosts, e).
                         if e = None then ([], Returns ((hosts, None), rr))
                         else cullStoreHosts rr storeHosts cnt))
            else distanceQueries (fst (PickStoreHosts p rr cnt))
                = [CallFindResources poolResources [] ''nic'' cnt
                     (fst (primaryBand p)) (snd (primaryBand p))]
              \<and> PickStoreHosts p rr cnt = (tr0 @ tr1, snd (cullStoreHosts rr storeHosts cnt))))"
proof -
  from c have c': "\<not> int (length storeHosts) < cnt" by simp
  have tr0: "tr0 = [CallGetHosts (StoreServiceName p)]"
    using fst_findEligibleStoreHosts [of p] e by simp
  from pickHosts_error_ready [OF f] obtain FindResources poolResources hostPortMap where
    ready: "distMap p = Some FindResources" "toResources storeHosts = Returns poolResources"
      "toResources [] = Returns []" "fillHostPortMap storeHosts Map.empty = Returns hostPortMap"
    by auto
  have q1: "distanceQueries tr1
      = [CallFindResources poolResources [] ''nic'' cnt (fst (primaryBand p)) (snd (primaryBand p))]"
    using pickHosts_ready_queries [OF ready, of "StoreServiceName p" "eligibleSpare p storeHosts" cnt
        "fst (primaryBand p)" "snd (primaryBand p)"] f
    by simp
  have q2: "distanceQueries (fst (pickHosts p (StoreServiceName p) storeHosts (eligibleSpare p storeHosts) [] cnt
        (fst (fallbackBand p)) (snd (fallbackBand p))))
      = [CallFindResources poolResources [] ''nic'' cnt (fst (fallbackBand p)) (snd (fallbackBand p))]"
    by (rule pickHosts_ready_queries [OF ready])
  have q0: "distanceQueries tr0 = []"
    by (simp add: tr0 distanceQueries_def)
  have widen: "PickStoreHosts p rr cnt
      = andThen (tr0 @ tr1, Returns ()) (\<lambda>_.
          andThen
            (pickHosts p (StoreServiceName p) storeHosts (eligibleSpare p storeHosts) [] cnt
               (fst (fallbackBand p)) (snd (fallbackBand p)))
            (\<lambda>(hosts, e).
               if e = None then ([], Returns ((hosts, None), rr))
               else cullStoreHosts rr storeHosts cnt))"
    if "fallbackWidens p"
    unfolding PickStoreHosts_eligible [OF e c'] f using that
    by (simp add: andThen_def)
  have narrow: "PickStoreHosts p rr cnt = (tr0 @ tr1, snd (cullStoreHosts rr storeHosts cnt))"
    if "\<not> fallbackWidens p"
    unfolding PickStoreHosts_eligible [OF e c'] f using that
    by (simp add: andThen_def fst_cullStoreHosts)
  have "distanceQueries (fst (PickStoreHosts p rr cnt))
      = [CallFindResources poolResources [] ''nic'' cnt (fst (primaryBand p)) (snd (primaryBand p)),
         CallFindResources poolResources [] ''nic'' cnt (fst (fallbackBand p)) (snd (fallbackBand p))]"
    if "fallbackWidens p"
    unfolding widen [OF that]
    by (simp add: fst_andThen q0 q1 q2 fst_cullStoreHosts distanceQueries_def [of "[]"]
        split: outcome.splits prod.splits)
  moreover have "distanceQueries (fst (PickStoreHosts p rr cnt))
      = [CallFindResources poolResources [] ''nic'' cnt (fst (primaryBand p)) (snd (primaryBand p))]"
    if "\<not> fallbackWidens p"
    unfolding narrow [OF that] by (simp add: q0 q1)
  moreover have "fallbackWidens p \<longleftrightarrow>
            MinStoreToStoreFallbackDistance (appConfig (ctx p)) < fst (primaryBand p)
            \<or> snd (primaryBand p) < MaxStoreToStoreFallbackDistance (appConfig (ctx p))"
    by (simp add: fallbackWidens_def)
  moreover have "fst (primaryBand p) \<le> MinStoreToStoreFallbackDistance (appConfig (ctx p))
          \<and> MaxStoreToStoreFallbackDistance (appConfig (ctx p)) \<le> snd (primaryBand p)
        \<longrightarrow> \<not> fallbackWidens p"
    by (auto simp: fallbackWidens_def)
  ultimately show ?thesis
    using ready(2) widen narrow by (cases "fallbackWidens p") simp_all
qed


lemma eligibleSpare_example:
  "eligibleSpare examplePlacement [Some (host ''u1'' ''h1:100''), Some (host ''u2'' ''h2:200'')]
    = [None]"
  "eligibleSpare (withBands mn mx mnFallback mxFallback examplePlacement)
      [Some (host ''u1'' ''h1:100''), Some (host ''u2'' ''h2:200'')]
    = [None]"
  by (simp_all add: eligibleSpare_def withBands_def example_defs)

lemma pickHosts_example_fails:
  "pickHosts examplePlacement ''store''
      [Some (host ''u1'' ''h1:100''), Some (host ''u2'' ''h2:200'')] [None] [] 2 1 5
    = ([CallFindResources [''h1'', ''h2''] [] ''nic'' 2 1 5],
       Returns ([], Some (CollaboratorError ''no resources'')))"
  by (simp add: pickHosts_def andThen_def Split_def Atoi_def digit_of_def MaxInt64_def Let_def
      example_defs)

lemma bands_example:
  "primaryBand examplePlacement = (1, 5)" "fallbackBand examplePlacement = (2, 4)"
  "StoreServiceName examplePlacement = ''store''"
  "MinStoreToStoreFallbackDistance (appConfig (ctx examplePlacement)) = 2"
  "MaxStoreToStoreFallbackDistance (appConfig (ctx examplePlacement)) = 4"
  by code_simp+

text \<open>
  Claim C3 as stated fails where the fallback band narrows the primary one. At the
  example placement the primary band is 1 to 5 and the fallback band 2 to 4, the
  topology service fails the primary query, the bands differ, and yet the whole call
  sends one distance query only: the fallback band is never tried.
\<close>

theorem PickStoreHosts_narrower_fallback_not_tried:
  "findEligibleStoreHosts examplePlacement
     = ([CallGetHosts ''store''],
        Returns ([Some (host ''u1'' ''h1:100''), Some (host ''u2'' ''h2:200'')], None))
   \<and> primaryBand examplePlacement = (1, 5)
   \<and> pickHosts examplePlacement ''store''
        [Some (host ''u1'' ''h1:100''), Some (host ''u2'' ''h2:200'')] [None] [] 2 1 5
     = ([CallFindResources [''h1'', ''h2''] [] ''nic'' 2 1 5],
        Returns ([], Some (CollaboratorError ''no resources'')))
   \<and> fallbackBand examplePlacement = (2, 4)
   \<and> fallbackBand examplePlacement \<noteq> primaryBand examplePlacement
   \<and> distanceQueries (fst (PickStoreHosts examplePlacement Map.empty 2))
     = [CallFindResources [''h1'', ''h2''] [] ''nic'' 2 1 5]"
proof -
  have "distanceQueries (fst (PickStoreHosts examplePlacement Map.empty 2))
     = [CallFindResources [''h1'', ''h2''] [] ''nic'' 2 1 5]"
    by code_simp
  then show ?thesis
    by (simp add: findEligibleStoreHosts_example pickHosts_example_fails bands_example)
qed


theorem PickStoreHosts_retry_witness:
  "findEligibleStoreHosts examplePlacement
     = ([CallGetHosts ''store''],
        Returns ([Some (host ''u1'' ''h1:100''), Some (host ''u2'' ''h2:200'')], None))
   \<and> pickHosts examplePlacement (StoreServiceName examplePlacement)
        [Some (host ''u1'' ''h1:100''), Some (host ''u2'' ''h2:200'')] [None] [] 2
        (fst (primaryBand examplePlacement)) (snd (primaryBand examplePlacement))
     = ([CallFindResources [''h1'', ''h2''] [] ''nic'' 2 1 5],
        Returns ([], Some (CollaboratorError ''no resources'')))
   \<and> \<not> fallbackWidens examplePlacement
   \<and> distanceQueries (fst (PickStoreHosts examplePlacement Map.empty 2))
     = [CallFindResources [''h1'', ''h2''] [] ''nic'' 2 1 5]
   \<and> fallbackWidens (withBands 1 5 1 9 examplePlacement)
   \<and> distanceQueries (fst (PickStoreHosts (withBands 1 5 1 9 examplePlacement) Map.empty 2))
     = [CallFindResources [''h1'', ''h2''] [] ''nic'' 2 1 5,
        CallFindResources [''h1'', ''h2''] [] ''nic'' 2 1 9]"
proof -
  have e: "findEligibleStoreHosts examplePlacement
     = ([CallGetHosts ''store''],
        Returns ([Some (host ''u1'' ''h1:100''), Some (host ''u2'' ''h2:200'')], None))"
    by (rule findEligibleStoreHosts_example)
  have c: "2 \<le> int (length [Some (host ''u1'' ''h1:100''), Some (host ''u2'' ''h2:200'')])"
    by simp
  have f: "pickHosts examplePlacement (StoreServiceName examplePlacement)
        [Some (host ''u1'' ''h1:100''), Some (host ''u2'' ''h2:200'')] [None] [] 2
        (fst (primaryBand examplePlacement)) (snd (primaryBand examplePlacement))
     = ([CallFindResources [''h1'', ''h2''] [] ''nic'' 2 1 5],
        Returns ([], Some (CollaboratorError ''no resources'')))"
    by (simp add: bands_example pickHosts_example_fails)
  have n: "\<not> fallbackWidens examplePlacement"
    by code_simp
  have r: "toResources [Some (host ''u1'' ''h1:100''), Some (host ''u2'' ''h2:200'')]
      = Returns [''h1'', ''h2'']"
    by (simp add: Split_def host_def)
  have "\<exists>pr. toResources [Some (host ''u1'' ''h1:100''), Some (host ''u2'' ''h2:200'')] = Returns pr
      \<and> distanceQueries (fst (PickStoreHosts examplePlacement Map.empty 2))
        = [CallFindResources pr [] ''nic'' 2
             (fst (primaryBand examplePlacement)) (snd (primaryBand examplePlacement))]"
    using PickStoreHosts_retry [OF e c f [folded eligibleSpare_example(1)], of Map.empty,
        THEN conjunct2, THEN conjunct2] n
    by (simp only: if_False) blast
  with r have a: "distanceQueries (fst (PickStoreHosts examplePlacement Map.empty 2))
     = [CallFindResources [''h1'', ''h2''] [] ''nic'' 2 1 5]"
    by (auto simp: bands_example)
  have e': "findEligibleStoreHosts (withBands 1 5 1 9 examplePlacement)
     = ([CallGetHosts ''store''],
        Returns ([Some (host ''u1'' ''h1:100''), Some (host ''u2'' ''h2:200'')], None))"
    by (simp add: findEligibleStoreHosts_def andThen_def doesStoreMeetConstraints_def example_defs
        withBands_def)
  have b': "primaryBand (withBands 1 5 1 9 examplePlacement) = (1, 5)"
    "fallbackBand (withBands 1 5 1 9 examplePlacement) = (1, 9)"
    by code_simp+
  have f': "pickHosts (withBands 1 5 1 9 examplePlacement)
        (StoreServiceName (withBands 1 5 1 9 examplePlacement))
        [Some (host ''u1'' ''h1:100''), Some (host ''u2'' ''h2:200'')] [None] [] 2
        (fst (primaryBand (withBands 1 5 1 9 examplePlacement)))
        (snd (primaryBand (withBands 1 5 1 9 examplePlacement)))
     = ([CallFindResources [''h1'', ''h2''] [] ''nic'' 2 1 5],
        Returns ([], Some (CollaboratorError ''no resources'')))"
    unfolding b' fst_conv snd_conv
    by (simp add: pickHosts_def andThen_def Split_def Atoi_def digit_of_def MaxInt64_def Let_def
      example_defs withBands_def)
  have w: "fallbackWidens (withBands 1 5 1 9 examplePlacement)"
    by code_simp
  have "\<exists>pr. toResources [Some (host ''u1'' ''h1:100''), Some (host ''u2'' ''h2:200'')] = Returns pr
      \<and> distanceQueries (fst (PickStoreHosts (withBands 1 5 1 9 examplePlacement) Map.empty 2))
        = [CallFindResources pr [] ''nic'' 2
             (fst (primaryBand (withBands 1 5 1 9 examplePlacement)))
             (snd (primaryBand (withBands 1 5 1 9 examplePlacement))),
           CallFindResources pr [] ''nic'' 2
             (fst (fallbackBand (withBands 1 5 1 9 examplePlacement)))
             (snd (fallbackBand (withBands 1 5 1 9 examplePlacement)))]"
    using PickStoreHosts_retry [OF e' c f' [folded eligibleSpare_example(2) [of 1 5 1 9]],
        of Map.empty, THEN conjunct2, THEN conjunct2] w
    by (simp only: if_True) blast
  with r have a': "distanceQueries (fst (PickStoreHosts (withBands 1 5 1 9 examplePlacement) Map.empty 2))
     = [CallFindResources [''h1'', ''h2''] [] ''nic'' 2 1 5,
        CallFindResources [''h1'', ''h2''] [] ''nic'' 2 1 9]"
    by (auto simp: b')
  from e f n a w a' show ?thesis by blast
qed


























lemma answeredQueries_no_distMap: "distMap p = None \<Longrightarrow> answeredQueries p tr = []"
proof -
  assume "distMap p = None"
  then have "answerOf p e = []" for e by (cases e) simp_all
  then show ?thesis by (simp add: answeredQueries_def)
qed






end
